theory Spec2Isabelle
  imports Main
begin

section \<open>The headshot viewer: data model\<close>

text \<open>
  A shallow embedding of the selection and settings workflow of
  \<^verbatim>\<open>src/headshot_viewer.py\<close>.

  The Python objects reachable from \<^verbatim>\<open>MainWindow\<close> are one record \<open>app\<close>:
  \<^item> every \<^verbatim>\<open>HeadshotData\<close> instance lives in a store \<open>heap\<close>, addressed by its
    identity (a \<open>ref\<close>); lists and fields that hold such an instance hold its \<open>ref\<close>,
    so that a write through \<^verbatim>\<open>current_image\<close> is seen through
    \<^verbatim>\<open>headshot_data\<close>, as in Python;
  \<^item> dictionaries are maps; the code only ever stores a copy of a dictionary
    (\<^verbatim>\<open>.copy()\<close>) or clears it in place, so a dictionary is a value;
  \<^item> the calls into the service layer (\<^verbatim>\<open>HeadshotAPIClient\<close>,
    \<^verbatim>\<open>ImageProcessor\<close>), the signals the code emits and the warnings it logs are
    appended to \<open>trace\<close>, in program order;
  \<^item> \<^verbatim>\<open>print\<close> and \<^verbatim>\<open>logger.info\<close> lines and the texts of the preview labels
    are display only and are not part of the state; a slot that only logs
    (\<^verbatim>\<open>on_preset_applied\<close>, \<^verbatim>\<open>on_operation_completed\<close>, ...) is covered by the
    event of the signal that calls it;
  \<^item> Qt delivers a signal to the slots of the same thread within the call that emits
    it: on the hue tab, \<^verbatim>\<open>setValue\<close> runs the slots connected to \<^verbatim>\<open>valueChanged\<close>
    and \<^verbatim>\<open>setText\<close> the slot connected to \<^verbatim>\<open>textChanged\<close> before they return, and
    only when the value or the text changes. The slots of the hue tab are modelled
    with these calls (\<open>hue_slots\<close>).
\<close>

type_synonym ref = nat

datatype py_value = PyInt int | PyStr string | PyBool bool

text \<open>\<^verbatim>\<open>class HeadshotData\<close>: the fields set by \<^verbatim>\<open>__init__\<close>.\<close>

record HeadshotData =
  file_path :: string
  metadata :: "string \<rightharpoonup> py_value"
  thumbnail_path :: "string option"
  is_selected :: bool
  edit_settings :: "string \<rightharpoonup> int"

text \<open>
  \<^verbatim>\<open>class APIResponse\<close>. Every response the code builds carries its \<^verbatim>\<open>data\<close>.
\<close>

record 'a APIResponse =
  success :: bool
  data :: 'a
  error :: "string option"

text \<open>
  \<^verbatim>\<open>class MaterialImageLabel\<close>: the selection state and the style class property that
  \<^verbatim>\<open>set_selected\<close> writes.
\<close>

record MaterialImageLabel =
  selected :: bool
  class_property :: string

text \<open>
  \<^verbatim>\<open>QApplication.keyboardModifiers()\<close> is a set of modifier flags; the code compares it
  with \<^verbatim>\<open>Qt.ControlModifier\<close>, which holds when Control and nothing else is pressed.
\<close>

datatype KeyboardModifier =
  ShiftModifier | ControlModifier | AltModifier | MetaModifier | KeypadModifier

text \<open>
  A progress percentage: either an integer literal of the code, or
  \<^verbatim>\<open>int((i + 1) / n * 100)\<close>, which Python computes in floating point and which is
  kept symbolic (numerator \<open>i + 1\<close> and \<open>n\<close>).
\<close>

datatype progress = Percent int | Percent_of nat nat

datatype event =
    Api_get_image_metadata string
  | Api_apply_preset ref string
  | Api_adjust_hue ref int
  | Api_save_edited_image ref "string option"
  | Api_get_similar_images ref
  | Processor_process_batch "ref list"
  | Processor_process_single_image ref
  | Emit_processing_started
  | Emit_processing_progress progress
  | Emit_processing_finished ref
  | Emit_presets_loaded "string list"
  | Emit_preset_applied string
  | Emit_preset_saved string
  | Emit_directory_scanned "string list"
  | Emit_scan_progress progress
  | Emit_files_loaded "ref list"
  | Emit_file_saved string
  | Emit_operation_completed string
  | Log_warning_index_out_of_bounds int

record app =
  heap :: "ref \<Rightarrow> HeadshotData"
  next_ref :: ref
  presets :: "string \<rightharpoonup> (string \<rightharpoonup> int)"
  headshot_data :: "ref list"
  gallery_items :: "MaterialImageLabel list"
  editor_current_image :: "ref option"
  editor_edit_settings :: "string \<rightharpoonup> int"
  hue_current_image :: "ref option"
  hue_slider :: "int option"
  hue_value :: "string option"
  trace :: "event list"

definition emit :: "event \<Rightarrow> app \<Rightarrow> app" where
  "emit e st = st\<lparr>trace := trace st @ [e]\<rparr>"

subsection \<open>Python's \<^verbatim>\<open>str\<close> of an integer\<close>

definition digit_char :: "nat \<Rightarrow> char" where
  "digit_char d = ''0123456789'' ! d"

function str_nat :: "nat \<Rightarrow> string" where
  "str_nat n = (if n < 10 then [digit_char n] else str_nat (n div 10) @ [digit_char (n mod 10)])"
  by pat_completeness auto
termination
  by (relation "measure (\<lambda>n. n)") auto

definition str_int :: "int \<Rightarrow> string" where
  "str_int i = (if i < 0 then CHR ''-'' # str_nat (nat (- i)) else str_nat (nat i))"

section \<open>The service layer\<close>

subsection \<open>\<^verbatim>\<open>HeadshotAPIClient\<close>\<close>

text \<open>Every method of the client is a stub that reports success.\<close>

definition mock_metadata :: "string \<rightharpoonup> py_value" where
  "mock_metadata =
     [''width'' \<mapsto> PyInt 1920, ''height'' \<mapsto> PyInt 1080, ''file_size'' \<mapsto> PyInt 2048576,
      ''created_date'' \<mapsto> PyStr ''2024-01-15'', ''camera_model'' \<mapsto> PyStr ''Canon EOS R5'']"

definition api_get_image_metadata ::
  "string \<Rightarrow> app \<Rightarrow> (string \<rightharpoonup> py_value) APIResponse \<times> app" where
  "api_get_image_metadata image_path st =
     (\<lparr>success = True, data = mock_metadata, error = None\<rparr>,
      emit (Api_get_image_metadata image_path) st)"

definition api_apply_preset :: "ref \<Rightarrow> string \<Rightarrow> app \<Rightarrow> ref APIResponse \<times> app" where
  "api_apply_preset image_data preset_name st =
     (\<lparr>success = True, data = image_data, error = None\<rparr>,
      emit (Api_apply_preset image_data preset_name) st)"

definition api_adjust_hue :: "ref \<Rightarrow> int \<Rightarrow> app \<Rightarrow> ref APIResponse \<times> app" where
  "api_adjust_hue image_data hue st =
     (\<lparr>success = True, data = image_data, error = None\<rparr>,
      emit (Api_adjust_hue image_data hue) st)"

text \<open>\<^verbatim>\<open>save_path = output_path or image_data.file_path\<close>: an empty path counts as absent.\<close>

definition api_save_edited_image ::
  "ref \<Rightarrow> string option \<Rightarrow> app \<Rightarrow> string APIResponse \<times> app" where
  "api_save_edited_image image_data output_path st =
     (let save_path = (case output_path of
                         None \<Rightarrow> file_path (heap st image_data)
                       | Some p \<Rightarrow> if p = [] then file_path (heap st image_data) else p)
      in (\<lparr>success = True, data = save_path, error = None\<rparr>,
          emit (Api_save_edited_image image_data output_path) st))"

subsection \<open>\<^verbatim>\<open>ImageProcessor\<close>\<close>

text \<open>
  \<^verbatim>\<open>process_single_image\<close> emits \<^verbatim>\<open>processing_started\<close>, the six progress values of
  \<^verbatim>\<open>range(0, 101, 20)\<close> and \<^verbatim>\<open>processing_finished\<close>. The settings are only printed.
\<close>

definition process_single_image :: "ref \<Rightarrow> (string \<rightharpoonup> 'v) \<Rightarrow> app \<Rightarrow> app" where
  "process_single_image image_data settings st =
     st\<lparr>trace := trace st @
        [Processor_process_single_image image_data, Emit_processing_started] @
        map (\<lambda>p. Emit_processing_progress (Percent p)) [0, 20, 40, 60, 80, 100] @
        [Emit_processing_finished image_data]\<rparr>"

text \<open>
  The loop of \<^verbatim>\<open>process_batch\<close> over \<^verbatim>\<open>enumerate(images)\<close>: \<open>i\<close> is the index of the
  head of the remaining list and \<open>n\<close> is \<^verbatim>\<open>len(images)\<close>. The division by \<open>n\<close> is only
  reached inside the loop, where \<open>n > 0\<close>.
\<close>

fun process_batch_loop :: "nat \<Rightarrow> nat \<Rightarrow> ref list \<Rightarrow> (string \<rightharpoonup> 'v) \<Rightarrow> app \<Rightarrow> app" where
  "process_batch_loop i n [] settings st = st"
| "process_batch_loop i n (image_data # rest) settings st =
     process_batch_loop (Suc i) n rest settings
       (process_single_image image_data settings
          (emit (Emit_processing_progress (Percent_of (i + 1) n)) st))"

definition process_batch :: "ref list \<Rightarrow> (string \<rightharpoonup> 'v) \<Rightarrow> app \<Rightarrow> app" where
  "process_batch images settings st =
     process_batch_loop 0 (length images) images settings
       (emit (Processor_process_batch images) st)"

subsection \<open>\<^verbatim>\<open>PresetManager\<close>\<close>

definition mock_presets :: "string \<rightharpoonup> (string \<rightharpoonup> int)" where
  "mock_presets =
     [''Portrait Enhance'' \<mapsto> [''brightness'' \<mapsto> 10, ''contrast'' \<mapsto> 15, ''saturation'' \<mapsto> 5],
      ''Studio Light'' \<mapsto> [''brightness'' \<mapsto> 20, ''contrast'' \<mapsto> 10, ''warmth'' \<mapsto> 8],
      ''Natural Look'' \<mapsto> [''brightness'' \<mapsto> 5, ''contrast'' \<mapsto> 5, ''saturation'' \<mapsto> 2]]"

definition load_presets :: "app \<Rightarrow> string list \<times> app" where
  "load_presets st =
     (let preset_names = [''Portrait Enhance'', ''Studio Light'', ''Natural Look'']
      in (preset_names, emit (Emit_presets_loaded preset_names) (st\<lparr>presets := mock_presets\<rparr>)))"

text \<open>
  \<^verbatim>\<open>PresetManager.apply_preset\<close>. The catalog entry is read into \<^verbatim>\<open>settings\<close> and never
  used; the record is handed to the client, and \<^verbatim>\<open>preset_applied\<close> is emitted when the
  client reports success.
\<close>

definition apply_preset :: "string \<Rightarrow> ref \<Rightarrow> app \<Rightarrow> bool \<times> app" where
  "apply_preset preset_name image_data st =
     (case presets st preset_name of
        None \<Rightarrow> (False, st)
      | Some settings \<Rightarrow>
          (let (response, st1) = api_apply_preset image_data preset_name st
           in if success response then (True, emit (Emit_preset_applied preset_name) st1)
              else (False, st1)))"

definition save_preset :: "string \<Rightarrow> (string \<rightharpoonup> int) \<Rightarrow> app \<Rightarrow> bool \<times> app" where
  "save_preset preset_name settings st =
     (True, emit (Emit_preset_saved preset_name)
              (st\<lparr>presets := (presets st)(preset_name \<mapsto> settings)\<rparr>))"

definition get_preset_settings :: "string \<Rightarrow> app \<Rightarrow> (string \<rightharpoonup> int) option" where
  "get_preset_settings preset_name st = presets st preset_name"

subsection \<open>Allocation of a \<^verbatim>\<open>HeadshotData\<close>\<close>

text \<open>
  \<^verbatim>\<open>HeadshotData(file_path)\<close> builds a new object: it gets the next free identity, and
  the fields \<^verbatim>\<open>__init__\<close> gives it.
\<close>

definition new_HeadshotData :: "string \<Rightarrow> app \<Rightarrow> ref \<times> app" where
  "new_HeadshotData path st =
     (next_ref st,
      st\<lparr>heap := (heap st)(next_ref st :=
             \<lparr>file_path = path, metadata = Map.empty, thumbnail_path = None,
              is_selected = False, edit_settings = Map.empty\<rparr>),
         next_ref := Suc (next_ref st)\<rparr>)"

text \<open>
  \<^verbatim>\<open>get_similar_images\<close> builds three records that no caller keeps
  (\<^verbatim>\<open>apply_similar_settings\<close> only logs their number).
\<close>

definition api_get_similar_images :: "ref \<Rightarrow> app \<Rightarrow> ref list APIResponse \<times> app" where
  "api_get_similar_images reference_image st =
     (let st0 = emit (Api_get_similar_images reference_image) st;
          (r1, st1) = new_HeadshotData ''similar_image_1.jpg'' st0;
          (r2, st2) = new_HeadshotData ''similar_image_2.jpg'' st1;
          (r3, st3) = new_HeadshotData ''similar_image_3.jpg'' st2
      in (\<lparr>success = True, data = [r1, r2, r3], error = None\<rparr>, st3))"

section \<open>The gallery tab\<close>

text \<open>
  \<^verbatim>\<open>on_images_loaded\<close> replaces the collection by the list it is handed
  (\<^verbatim>\<open>images if images else []\<close>); \<^verbatim>\<open>refresh_gallery\<close> only logs.
\<close>

definition on_images_loaded :: "ref list \<Rightarrow> app \<Rightarrow> app" where
  "on_images_loaded images st = st\<lparr>headshot_data := (if images \<noteq> [] then images else [])\<rparr>"

text \<open>\<^verbatim>\<open>MainWindow.get_selected_images\<close>, and the same comprehension in the gallery tab.\<close>

definition get_selected_images :: "app \<Rightarrow> ref list" where
  "get_selected_images st = [d \<leftarrow> headshot_data st. is_selected (heap st d)]"

definition set_selected :: "bool \<Rightarrow> MaterialImageLabel \<Rightarrow> MaterialImageLabel" where
  "set_selected s item =
     item\<lparr>selected := s,
          class_property := (if s then ''image_item_selected'' else ''image_item'')\<rparr>"

text \<open>
  The loop of the single selection, over \<^verbatim>\<open>enumerate(self.headshot_data)\<close>: \<open>i\<close> is the
  index of the head of the remaining list.
\<close>

fun clear_selection :: "nat \<Rightarrow> ref list \<Rightarrow> app \<Rightarrow> app" where
  "clear_selection i [] st = st"
| "clear_selection i (d # rest) st =
     clear_selection (Suc i) rest
       (let st1 = st\<lparr>heap := (heap st)(d := (heap st d)\<lparr>is_selected := False\<rparr>)\<rparr>
        in if i < length (gallery_items st1)
           then st1\<lparr>gallery_items :=
                  (gallery_items st1)[i := set_selected False (gallery_items st1 ! i)]\<rparr>
           else st1)"

text \<open>
  \<^verbatim>\<open>select_image\<close>. After the bounds check every index used is within both lists, so
  no access raises and the \<^verbatim>\<open>except\<close> branch is never taken; the function returns
  normally on every input.
\<close>

definition select_image :: "KeyboardModifier set \<Rightarrow> int \<Rightarrow> app \<Rightarrow> app" where
  "select_image modifiers index st =
     (if index < 0 \<or> index \<ge> int (length (gallery_items st))
         \<or> index \<ge> int (length (headshot_data st))
      then emit (Log_warning_index_out_of_bounds index) st
      else
        (let k = nat index in
         if modifiers = {ControlModifier}
         then
           (let d = headshot_data st ! k;
                current_state = is_selected (heap st d)
            in st\<lparr>heap := (heap st)(d := (heap st d)\<lparr>is_selected := \<not> current_state\<rparr>),
                  gallery_items :=
                    (gallery_items st)[k := set_selected (\<not> current_state) (gallery_items st ! k)]\<rparr>)
         else
           (let st1 = clear_selection 0 (headshot_data st) st;
                d = headshot_data st1 ! k
            in st1\<lparr>heap := (heap st1)(d := (heap st1 d)\<lparr>is_selected := True\<rparr>),
                   gallery_items :=
                     (gallery_items st1)[k := set_selected True (gallery_items st1 ! k)]\<rparr>)))"

fun apply_preset_each :: "string \<Rightarrow> ref list \<Rightarrow> app \<Rightarrow> app" where
  "apply_preset_each preset_name [] st = st"
| "apply_preset_each preset_name (image_data # rest) st =
     apply_preset_each preset_name rest (snd (apply_preset preset_name image_data st))"

definition apply_preset_to_selected :: "string \<Rightarrow> app \<Rightarrow> app" where
  "apply_preset_to_selected preset_name st =
     apply_preset_each preset_name [d \<leftarrow> headshot_data st. is_selected (heap st d)] st"

subsection \<open>\<^verbatim>\<open>APIService\<close> and the batch submission\<close>

definition apply_batch_edits :: "ref list \<Rightarrow> (string \<rightharpoonup> 'v) \<Rightarrow> app \<Rightarrow> app" where
  "apply_batch_edits images settings st =
     emit (Emit_operation_completed ''batch_edit'') (process_batch images settings st)"

definition gallery_form_settings :: "string \<rightharpoonup> py_value" where
  "gallery_form_settings =
     [''filter_type'' \<mapsto> PyStr ''example_filter'', ''sort_order'' \<mapsto> PyStr ''date_desc'',
      ''enable_feature'' \<mapsto> PyBool True]"

definition submit_gallery_settings :: "app \<Rightarrow> app" where
  "submit_gallery_settings st =
     (let settings = gallery_form_settings;
          selected_images = [d \<leftarrow> headshot_data st. is_selected (heap st d)]
      in if selected_images \<noteq> [] then apply_batch_edits selected_images settings st else st)"

subsection \<open>\<^verbatim>\<open>FileManager\<close> and \<^verbatim>\<open>APIService.load_directory\<close>\<close>

text \<open>The format \<^verbatim>\<open>{i:03d}\<close> and \<^verbatim>\<open>os.path.join\<close> (in its POSIX form).\<close>

definition format_03d :: "nat \<Rightarrow> string" where
  "format_03d i = replicate (3 - length (str_nat i)) CHR ''0'' @ str_nat i"

definition os_path_join :: "string \<Rightarrow> string \<Rightarrow> string" where
  "os_path_join a b =
     (if b \<noteq> [] \<and> hd b = CHR ''/'' then b
      else if a = [] \<or> last a = CHR ''/'' then a @ b
      else a @ ''/'' @ b)"

definition scan_directory :: "string \<Rightarrow> app \<Rightarrow> string list \<times> app" where
  "scan_directory directory_path st =
     (let mock_files =
            map (\<lambda>i. os_path_join directory_path (''headshot_'' @ format_03d i @ ''.jpg''))
              [1 ..< 25]
      in (mock_files, emit (Emit_directory_scanned mock_files) st))"

text \<open>
  The loop of \<^verbatim>\<open>load_images\<close> over \<^verbatim>\<open>enumerate(file_paths)\<close>, with the list
  \<^verbatim>\<open>images\<close> built so far.
\<close>

fun load_images_loop :: "nat \<Rightarrow> nat \<Rightarrow> string list \<Rightarrow> ref list \<Rightarrow> app \<Rightarrow> ref list \<times> app" where
  "load_images_loop i n [] images st = (images, st)"
| "load_images_loop i n (path # rest) images st =
     (let st1 = emit (Emit_scan_progress (Percent_of (i + 1) n)) st;
          (image_data, st2) = new_HeadshotData path st1;
          (metadata_response, st3) = api_get_image_metadata path st2;
          st4 = (if success metadata_response
                 then st3\<lparr>heap := (heap st3)(image_data :=
                            (heap st3 image_data)\<lparr>metadata := data metadata_response\<rparr>)\<rparr>
                 else st3)
      in load_images_loop (Suc i) n rest (images @ [image_data]) st4)"

text \<open>
  \<^verbatim>\<open>files_loaded\<close> is connected first to the gallery tab's \<^verbatim>\<open>on_images_loaded\<close> and then
  to \<^verbatim>\<open>MainWindow.on_images_loaded\<close>, which calls the gallery tab's slot again.
\<close>

definition load_images :: "string list \<Rightarrow> app \<Rightarrow> ref list \<times> app" where
  "load_images file_paths st =
     (let (images, st1) = load_images_loop 0 (length file_paths) file_paths [] st;
          st2 = emit (Emit_files_loaded images) st1;
          st3 = on_images_loaded images st2;
          st4 = on_images_loaded images st3
      in (images, st4))"

definition load_directory :: "string \<Rightarrow> app \<Rightarrow> app" where
  "load_directory directory_path st =
     (let (files, st1) = scan_directory directory_path st;
          (images, st2) = load_images files st1
      in emit (Emit_operation_completed ''load_directory'') st2)"

definition save_image :: "ref \<Rightarrow> string option \<Rightarrow> app \<Rightarrow> bool \<times> app" where
  "save_image image_data output_path st =
     (let (response, st1) = api_save_edited_image image_data output_path st
      in if success response then (True, emit (Emit_file_saved (data response)) st1)
         else (False, st1))"

section \<open>The editor tab\<close>

text \<open>
  \<^verbatim>\<open>load_image_settings\<close> copies the record's settings into the tab (an object is
  always true in \<^verbatim>\<open>if self.current_image\<close>, so that test asks whether it is set).
\<close>

definition load_image_settings :: "app \<Rightarrow> app" where
  "load_image_settings st =
     (case editor_current_image st of
        Some img \<Rightarrow> st\<lparr>editor_edit_settings := edit_settings (heap st img)\<rparr>
      | None \<Rightarrow> st)"

definition editor_set_current_image :: "ref \<Rightarrow> app \<Rightarrow> app" where
  "editor_set_current_image image_data st =
     load_image_settings (st\<lparr>editor_current_image := Some image_data\<rparr>)"

definition reset_editor_settings :: "app \<Rightarrow> app" where
  "reset_editor_settings st =
     (let st1 = st\<lparr>editor_edit_settings := Map.empty\<rparr>
      in case editor_current_image st1 of
           Some img \<Rightarrow>
             st1\<lparr>heap := (heap st1)(img := (heap st1 img)\<lparr>edit_settings := Map.empty\<rparr>)\<rparr>
         | None \<Rightarrow> st1)"

definition save_current_edits :: "app \<Rightarrow> app" where
  "save_current_edits st =
     (case editor_current_image st of
        Some img \<Rightarrow>
          (let st1 = st\<lparr>heap := (heap st)(img :=
                          (heap st img)\<lparr>edit_settings := editor_edit_settings st\<rparr>)\<rparr>
           in snd (save_image img None st1))
      | None \<Rightarrow> st)"

text \<open>
  \<^verbatim>\<open>on_slider_changed\<close> stores the value under the name it is given, with no check of
  either, and then has the single setting processed.
\<close>

definition on_slider_changed :: "string \<Rightarrow> int \<Rightarrow> app \<Rightarrow> app" where
  "on_slider_changed parameter_name v st =
     (let st1 = st\<lparr>editor_edit_settings := (editor_edit_settings st)(parameter_name \<mapsto> v)\<rparr>
      in case editor_current_image st1 of
           Some img \<Rightarrow> process_single_image img [parameter_name \<mapsto> v] st1
         | None \<Rightarrow> st1)"

definition apply_similar_settings :: "app \<Rightarrow> app" where
  "apply_similar_settings st =
     (case editor_current_image st of
        Some img \<Rightarrow> snd (api_get_similar_images img st)
      | None \<Rightarrow> st)"

text \<open>
  The sliders the editor builds (\<^verbatim>\<open>section_configs\<close> in \<^verbatim>\<open>_build_left_column\<close>, each
  made by \<^verbatim>\<open>create_slider_widget(-100, 100, 0, ...)\<close>): the parameter names the code
  declares, each with its range.
\<close>

definition slider_parameters :: "string list" where
  "slider_parameters =
     [''Brightness'', ''Contrast'', ''Saturation'', ''Exposure'',
      ''Highlights'', ''Shadows'', ''Whites'', ''Blacks'',
      ''Clarity'', ''Texture'', ''Vibrance'', ''Dehaze'']"

definition slider_ranges :: "string \<rightharpoonup> int \<times> int" where
  "slider_ranges name = (if name \<in> set slider_parameters then Some (- 100, 100) else None)"

section \<open>The hue tab\<close>

definition hue_set_current_image :: "ref \<Rightarrow> app \<Rightarrow> app" where
  "hue_set_current_image image_data st = st\<lparr>hue_current_image := Some image_data\<rparr>"

text \<open>
  The hue slider and its value field call each other's slots. The slider is built by
  \<^verbatim>\<open>create_slider_widget(-180, 180, 0, self.update_hue)\<close>, which connects
  \<^verbatim>\<open>valueChanged\<close> to \<^verbatim>\<open>update_hue\<close> and then to \<^verbatim>\<open>_update_slider_value_field\<close>;
  \<^verbatim>\<open>_build_hue_controls\<close> connects the field's \<^verbatim>\<open>textChanged\<close> to
  \<^verbatim>\<open>update_slider_from_text\<close>. A \<open>hue_call\<close> is one of the two widget calls or one of
  the four slots:
  \<^item> \<^verbatim>\<open>QLineEdit.setText\<close> on the value field: when the text differs, it is written
    and \<^verbatim>\<open>update_slider_from_text\<close> runs with it;
  \<^item> \<^verbatim>\<open>QSlider.setValue\<close> on the hue slider: the value is bound to the range; when it
    differs from the slider's, it is written and \<^verbatim>\<open>update_hue\<close> and then
    \<^verbatim>\<open>_update_slider_value_field\<close> run with it;
  \<^item> \<^verbatim>\<open>update_hue\<close>: writes the value field and, when an image is set, hands the value
    to the client (both branches end by writing the preview label only);
  \<^item> \<^verbatim>\<open>update_slider_from_text\<close>: \<open>int_of\<close> stands for Python's built-in \<^verbatim>\<open>int\<close> on
    a string, \<open>None\<close> where it raises \<^verbatim>\<open>ValueError\<close>, which the code ignores; a value
    in range is handed to \<^verbatim>\<open>setValue\<close>;
  \<^item> \<^verbatim>\<open>_update_slider_value_field\<close> and \<^verbatim>\<open>reset_hue\<close>.

  The calls are mutually recursive, and for a reading \<open>int_of\<close> that does not give back
  the number that \<^verbatim>\<open>str\<close> has written they need not come to an end: the result is an
  option, \<open>None\<close> when they do not.
\<close>

datatype hue_call =
    Call_setText string
  | Call_setValue int
  | Call_update_hue int
  | Call_update_slider_from_text string
  | Call_update_slider_value_field int
  | Call_reset_hue

partial_function (option) hue_slots ::
  "(string \<Rightarrow> int option) \<Rightarrow> hue_call \<Rightarrow> app \<Rightarrow> app option" where
  "hue_slots int_of call st =
     (case call of
        Call_setText t \<Rightarrow>
          (case hue_value st of
             None \<Rightarrow> Some st
           | Some old \<Rightarrow>
               if t = old then Some st
               else hue_slots int_of (Call_update_slider_from_text t) (st\<lparr>hue_value := Some t\<rparr>))
      | Call_setValue v \<Rightarrow>
          (case hue_slider st of
             None \<Rightarrow> Some st
           | Some cur \<Rightarrow>
               (let b = max (- 180) (min 180 v)
                in if b = cur then Some st
                   else Option.bind (hue_slots int_of (Call_update_hue b) (st\<lparr>hue_slider := Some b\<rparr>))
                          (\<lambda>st2. hue_slots int_of (Call_update_slider_value_field b) st2)))
      | Call_update_hue v \<Rightarrow>
          Option.bind
            (case hue_value st of
               Some _ \<Rightarrow> hue_slots int_of (Call_setText (str_int v)) st
             | None \<Rightarrow> Some st)
            (\<lambda>st1. case hue_current_image st1 of
                      Some img \<Rightarrow> Some (snd (api_adjust_hue img v st1))
                    | None \<Rightarrow> Some st1)
      | Call_update_slider_from_text text \<Rightarrow>
          (case int_of text of
             None \<Rightarrow> Some st
           | Some v \<Rightarrow>
               if - 180 \<le> v \<and> v \<le> 180 \<and> hue_slider st \<noteq> None
               then hue_slots int_of (Call_setValue v) st
               else Some st)
      | Call_update_slider_value_field v \<Rightarrow>
          (case hue_value st of
             Some _ \<Rightarrow> hue_slots int_of (Call_setText (str_int v)) st
           | None \<Rightarrow> Some st)
      | Call_reset_hue \<Rightarrow>
          (case hue_slider st of
             Some _ \<Rightarrow> hue_slots int_of (Call_setValue 0) st
           | None \<Rightarrow> Some st))"

text \<open>
  The three slots a user action reaches, as entry points; and the state after a call
  that may not come to an end (the state before it when it does not).
\<close>

definition settled :: "app \<Rightarrow> app option \<Rightarrow> app" where
  "settled st r = (case r of Some st' \<Rightarrow> st' | None \<Rightarrow> st)"

definition update_hue :: "(string \<Rightarrow> int option) \<Rightarrow> int \<Rightarrow> app \<Rightarrow> app option" where
  "update_hue int_of v st = hue_slots int_of (Call_update_hue v) st"

definition update_slider_from_text ::
  "(string \<Rightarrow> int option) \<Rightarrow> string \<Rightarrow> app \<Rightarrow> app option" where
  "update_slider_from_text int_of text st = hue_slots int_of (Call_update_slider_from_text text) st"

definition reset_hue :: "(string \<Rightarrow> int option) \<Rightarrow> app \<Rightarrow> app option" where
  "reset_hue int_of st = hue_slots int_of Call_reset_hue st"

text \<open>
  \<open>client_calls current v\<close> is what one run of \<^verbatim>\<open>update_hue\<close> adds to the trace: the
  call of the client's \<^verbatim>\<open>adjust_hue\<close> when an image is set, nothing otherwise.
\<close>

definition client_calls :: "ref option \<Rightarrow> int \<Rightarrow> event list" where
  "client_calls current v = (case current of Some img \<Rightarrow> [Api_adjust_hue img v] | None \<Rightarrow> [])"

section \<open>The main window\<close>

definition set_current_image_for_editing :: "ref \<Rightarrow> app \<Rightarrow> app" where
  "set_current_image_for_editing image_data st =
     hue_set_current_image image_data (editor_set_current_image image_data st)"

definition on_tab_changed :: "int \<Rightarrow> app \<Rightarrow> app" where
  "on_tab_changed index st =
     (case get_selected_images st of
        [] \<Rightarrow> st
      | current_image # _ \<Rightarrow>
          if index = 1 then editor_set_current_image current_image st
          else if index = 2 then hue_set_current_image current_image st
          else st)"

definition blank_HeadshotData :: HeadshotData where
  "blank_HeadshotData =
     \<lparr>file_path = [], metadata = Map.empty, thumbnail_path = None,
      is_selected = False, edit_settings = Map.empty\<rparr>"

text \<open>
  \<open>constructed_app\<close> is the state when the widgets and services are built (the
  catalog of \<^verbatim>\<open>PresetManager.__init__\<close> is empty); \<open>initial_app\<close> is the state when
  \<^verbatim>\<open>MainWindow.__init__\<close> returns, after \<^verbatim>\<open>APIService.initialize\<close> has loaded the presets.
\<close>

definition constructed_app :: app where
  "constructed_app =
     \<lparr>heap = (\<lambda>_. blank_HeadshotData), next_ref = 0, presets = Map.empty,
      headshot_data = [],
      gallery_items = replicate 12 \<lparr>selected = False, class_property = ''image_item''\<rparr>,
      editor_current_image = None, editor_edit_settings = Map.empty,
      hue_current_image = None, hue_slider = Some 0, hue_value = Some ''0'',
      trace = []\<rparr>"

definition initial_app :: app where
  "initial_app = snd (load_presets constructed_app)"

section \<open>Operations and reachable states\<close>

datatype operation =
    Load_directory string
  | On_images_loaded "ref list"
  | Select_image "KeyboardModifier set" int
  | Apply_preset_to_selected string
  | Submit_gallery_settings
  | On_tab_changed int
  | Set_current_image_for_editing ref
  | On_slider_changed string int
  | Save_current_edits
  | Reset_editor_settings
  | Apply_similar_settings
  | Update_hue int
  | Update_slider_from_text string
  | Reset_hue
  | Load_presets
  | Save_preset string "string \<rightharpoonup> int"

fun step :: "(string \<Rightarrow> int option) \<Rightarrow> operation \<Rightarrow> app \<Rightarrow> app" where
  "step int_of (Load_directory d) st = load_directory d st"
| "step int_of (On_images_loaded images) st = on_images_loaded images st"
| "step int_of (Select_image modifiers index) st = select_image modifiers index st"
| "step int_of (Apply_preset_to_selected name) st = apply_preset_to_selected name st"
| "step int_of Submit_gallery_settings st = submit_gallery_settings st"
| "step int_of (On_tab_changed index) st = on_tab_changed index st"
| "step int_of (Set_current_image_for_editing img) st = set_current_image_for_editing img st"
| "step int_of (On_slider_changed name v) st = on_slider_changed name v st"
| "step int_of Save_current_edits st = save_current_edits st"
| "step int_of Reset_editor_settings st = reset_editor_settings st"
| "step int_of Apply_similar_settings st = apply_similar_settings st"
| "step int_of (Update_hue v) st = settled st (update_hue int_of v st)"
| "step int_of (Update_slider_from_text text) st =
     settled st (update_slider_from_text int_of text st)"
| "step int_of Reset_hue st = settled st (reset_hue int_of st)"
| "step int_of Load_presets st = snd (load_presets st)"
| "step int_of (Save_preset name settings) st = snd (save_preset name settings st)"

fun run :: "(string \<Rightarrow> int option) \<Rightarrow> operation list \<Rightarrow> app \<Rightarrow> app" where
  "run int_of [] st = st"
| "run int_of (op # ops) st = run int_of ops (step int_of op st)"

section \<open>Names a catalog operation writes\<close>

text \<open>
  An operation writes a preset name when it saves a preset under it, or loads the
  catalog that holds it (\<^verbatim>\<open>load_presets\<close> replaces the whole catalog).
\<close>

fun writes_preset :: "string \<Rightarrow> operation \<Rightarrow> bool" where
  "writes_preset name (Save_preset n settings) = (n = name)"
| "writes_preset name Load_presets = (mock_presets name \<noteq> None)"
| "writes_preset name _ = False"

section \<open>Valid edit settings\<close>

text \<open>
  A table of ranges gives each recognized parameter name its least and greatest value.
  A settings mapping is valid for it when every key is recognized and its value is in
  range. \<open>records_valid\<close> asks this of every record of the collection;
  \<open>settings_invariant\<close> asks it of every record object and of the mapping the editor
  holds. An operation is \<open>accepted\<close> when the slider change it delivers, if it is one,
  carries a recognized name and a value in range.
\<close>

definition in_range :: "(string \<rightharpoonup> int \<times> int) \<Rightarrow> string \<Rightarrow> int \<Rightarrow> bool" where
  "in_range ranges name v =
     (case ranges name of None \<Rightarrow> False | Some (lo, hi) \<Rightarrow> lo \<le> v \<and> v \<le> hi)"

definition valid_settings :: "(string \<rightharpoonup> int \<times> int) \<Rightarrow> (string \<rightharpoonup> int) \<Rightarrow> bool" where
  "valid_settings ranges settings =
     (\<forall>name v. settings name = Some v \<longrightarrow> in_range ranges name v)"

definition records_valid :: "(string \<rightharpoonup> int \<times> int) \<Rightarrow> app \<Rightarrow> bool" where
  "records_valid ranges st =
     (\<forall>d \<in> set (headshot_data st). valid_settings ranges (edit_settings (heap st d)))"

definition settings_invariant :: "(string \<rightharpoonup> int \<times> int) \<Rightarrow> app \<Rightarrow> bool" where
  "settings_invariant ranges st =
     ((\<forall>r. valid_settings ranges (edit_settings (heap st r))) \<and>
      valid_settings ranges (editor_edit_settings st))"

fun accepted :: "(string \<rightharpoonup> int \<times> int) \<Rightarrow> operation \<Rightarrow> bool" where
  "accepted ranges (On_slider_changed name v) = in_range ranges name v"
| "accepted ranges _ = True"

section \<open>Concrete states\<close>

text \<open>
  \<open>loaded_record path s\<close> is the record \<^verbatim>\<open>load_images\<close> builds for a path (metadata
  from the client, no edit settings), with selection flag \<open>s\<close>. \<open>demo_loaded\<close> is a
  collection of three records as \<^verbatim>\<open>load_images\<close> leaves it (one object per path, no
  record selected), in a window with its twelve gallery items.
\<close>

definition loaded_record :: "string \<Rightarrow> bool \<Rightarrow> HeadshotData" where
  "loaded_record path s =
     \<lparr>file_path = path, metadata = mock_metadata, thumbnail_path = None,
      is_selected = s, edit_settings = Map.empty\<rparr>"

definition demo_loaded :: app where
  "demo_loaded =
     \<lparr>heap = (\<lambda>_. blank_HeadshotData)
         (0 := loaded_record ''/photos/headshot_001.jpg'' False,
          1 := loaded_record ''/photos/headshot_002.jpg'' False,
          2 := loaded_record ''/photos/headshot_003.jpg'' False),
      next_ref = 3, presets = mock_presets, headshot_data = [0, 1, 2],
      gallery_items = replicate 12 \<lparr>selected = False, class_property = ''image_item''\<rparr>,
      editor_current_image = None, editor_edit_settings = Map.empty,
      hue_current_image = None, hue_slider = Some 0, hue_value = Some ''0'',
      trace = []\<rparr>"

section \<open>Selection in the gallery\<close>

subsection \<open>The clearing loop\<close>

lemma clear_selection_frame:
  "presets (clear_selection i xs st) = presets st"
  "headshot_data (clear_selection i xs st) = headshot_data st"
  "trace (clear_selection i xs st) = trace st"
  "next_ref (clear_selection i xs st) = next_ref st"
  "editor_current_image (clear_selection i xs st) = editor_current_image st"
  "editor_edit_settings (clear_selection i xs st) = editor_edit_settings st"
  "hue_current_image (clear_selection i xs st) = hue_current_image st"
  "hue_slider (clear_selection i xs st) = hue_slider st"
  "hue_value (clear_selection i xs st) = hue_value st"
  "app.more (clear_selection i xs st) = app.more st"
  by (induction i xs st rule: clear_selection.induct; simp add: Let_def)+

lemma clear_selection_length:
  "length (gallery_items (clear_selection i xs st)) = length (gallery_items st)"
  by (induction i xs st rule: clear_selection.induct) (simp_all add: Let_def)

lemma clear_selection_heap:
  "heap (clear_selection i xs st) r =
     (if r \<in> set xs then (heap st r)\<lparr>is_selected := False\<rparr> else heap st r)"
  by (induction i xs st rule: clear_selection.induct) (auto simp add: Let_def)

lemma clear_selection_items:
  "j < length (gallery_items st) \<Longrightarrow>
   gallery_items (clear_selection i xs st) ! j =
     (if i \<le> j \<and> j < i + length xs then set_selected False (gallery_items st ! j)
      else gallery_items st ! j)"
  by (induction i xs st rule: clear_selection.induct) (auto simp add: Let_def nth_list_update not_less_eq_eq dest: le_antisym)

lemma set_selected_twice [simp]: "set_selected a (set_selected b item) = set_selected a item"
  by (simp add: set_selected_def)

subsection \<open>Filtering a list without repetitions\<close>

lemma filter_nth_distinct:
  "distinct xs \<Longrightarrow> i < length xs \<Longrightarrow> [x \<leftarrow> xs. x = xs ! i] = [xs ! i]"
proof (induction xs arbitrary: i)
  case Nil
  then show ?case by simp
next
  case (Cons a xs)
  show ?case
  proof (cases i)
    case 0
    have "[x \<leftarrow> xs. x = a] = []" using Cons.prems by (auto simp add: filter_empty_conv)
    with 0 show ?thesis by simp
  next
    case (Suc k)
    with Cons.prems have "a \<noteq> xs ! k" "k < length xs" "distinct xs" by auto
    with Cons.IH[of k] Suc show ?thesis by auto
  qed
qed

lemma filter_nth_pair_distinct:
  "distinct xs \<Longrightarrow> i < j \<Longrightarrow> j < length xs \<Longrightarrow>
   [x \<leftarrow> xs. x = xs ! i \<or> x = xs ! j] = [xs ! i, xs ! j]"
proof (induction xs arbitrary: i j)
  case Nil
  then show ?case by simp
next
  case (Cons a xs)
  from Cons.prems obtain j' where j: "j = Suc j'" by (cases j) auto
  show ?case
  proof (cases i)
    case 0
    from Cons.prems j have a: "a \<notin> set xs" "distinct xs" "j' < length xs" by auto
    then have "[x \<leftarrow> xs. x = a \<or> x = xs ! j'] = [x \<leftarrow> xs. x = xs ! j']"
      by (intro filter_cong) auto
    with a filter_nth_distinct[of xs j'] 0 j show ?thesis by simp
  next
    case (Suc i')
    with Cons.prems j have "a \<noteq> xs ! i'" "a \<noteq> xs ! j'" "i' < j'" "j' < length xs" "distinct xs"
      by auto
    with Cons.IH[of i' j'] Suc j show ?thesis by auto
  qed
qed

subsection \<open>Single selection\<close>

lemmas demo_simps = demo_loaded_def loaded_record_def blank_HeadshotData_def
  select_image_def Let_def emit_def get_selected_images_def set_selected_def

lemma select_single_frame:
  assumes "modifiers \<noteq> {ControlModifier}"
  shows
  "presets (select_image modifiers index st) = presets st"
  "headshot_data (select_image modifiers index st) = headshot_data st"
  "next_ref (select_image modifiers index st) = next_ref st"
  "editor_current_image (select_image modifiers index st) = editor_current_image st"
  "editor_edit_settings (select_image modifiers index st) = editor_edit_settings st"
  "hue_current_image (select_image modifiers index st) = hue_current_image st"
  "hue_slider (select_image modifiers index st) = hue_slider st"
  "hue_value (select_image modifiers index st) = hue_value st"
  "app.more (select_image modifiers index st) = app.more st"
  "length (gallery_items (select_image modifiers index st)) = length (gallery_items st)"
  using assms
  by (simp_all add: select_image_def Let_def emit_def clear_selection_frame clear_selection_length)

lemma select_single_trace:
  assumes "modifiers \<noteq> {ControlModifier}" "0 \<le> index" 
    "index < int (length (headshot_data st))" "index < int (length (gallery_items st))"
  shows "trace (select_image modifiers index st) = trace st"
  using assms by (simp add: select_image_def Let_def clear_selection_frame)

lemma select_single_heap:
  assumes "modifiers \<noteq> {ControlModifier}" "0 \<le> index" 
    "index < int (length (headshot_data st))" "index < int (length (gallery_items st))"
  shows "heap (select_image modifiers index st) r =
     (if r \<in> set (headshot_data st)
      then (heap st r)\<lparr>is_selected := (r = headshot_data st ! nat index)\<rparr>
      else heap st r)"
proof -
  have "headshot_data st ! nat index \<in> set (headshot_data st)"
    using assms by (intro nth_mem) simp
  with assms show ?thesis
    by (auto simp add: select_image_def Let_def clear_selection_frame clear_selection_heap)
qed

lemma select_single_items:
  assumes "modifiers \<noteq> {ControlModifier}" "0 \<le> index" 
    "index < int (length (headshot_data st))" "index < int (length (gallery_items st))"
    "j < length (gallery_items st)"
  shows "gallery_items (select_image modifiers index st) ! j =
     (if j = nat index then set_selected True (gallery_items st ! j)
      else if j < length (headshot_data st) then set_selected False (gallery_items st ! j)
      else gallery_items st ! j)"
  using assms
  by (auto simp add: select_image_def Let_def clear_selection_frame clear_selection_length
      clear_selection_items nth_list_update)

lemma select_single_idem:
  assumes "modifiers \<noteq> {ControlModifier}" "0 \<le> index" 
    "index < int (length (headshot_data st))" "index < int (length (gallery_items st))"
  shows "select_image modifiers index (select_image modifiers index st) =
         select_image modifiers index st"
proof -
  let ?st' = "select_image modifiers index st"
  have b: "index < int (length (headshot_data ?st'))" "index < int (length (gallery_items ?st'))"
    using assms by (simp_all add: select_single_frame)
  have h: "heap (select_image modifiers index ?st') = heap ?st'"
  proof
    fix r
    show "heap (select_image modifiers index ?st') r = heap ?st' r"
      using assms b
      by (simp add: select_single_heap[OF assms(1,2) b] select_single_heap[OF assms]
          select_single_frame)
  qed
  have g: "gallery_items (select_image modifiers index ?st') = gallery_items ?st'"
  proof (rule nth_equalityI)
    show "length (gallery_items (select_image modifiers index ?st')) = length (gallery_items ?st')"
      using assms by (simp add: select_single_frame)
  next
    fix j assume "j < length (gallery_items (select_image modifiers index ?st'))"
    then have j: "j < length (gallery_items st)" "j < length (gallery_items ?st')"
      using assms by (simp_all add: select_single_frame)
    have it: "gallery_items ?st' ! i =
       (if i = nat index then set_selected True (gallery_items st ! i)
        else if i < length (headshot_data st) then set_selected False (gallery_items st ! i)
        else gallery_items st ! i)" if "i < length (gallery_items st)" for i
      using select_single_items[OF assms that] .
    have k: "nat index < length (gallery_items st)" using assms by simp
    show "gallery_items (select_image modifiers index ?st') ! j = gallery_items ?st' ! j"
      using assms j k
      by (simp add: select_single_items[OF assms(1,2) b j(2)] it select_single_frame)
  qed
  show ?thesis
    using assms b h g
    by (intro app.equality) (simp_all add: select_single_frame select_single_trace)
qed

text \<open>
  \<^bold>\<open>C1.\<close> For every collection of distinct records and every index that passes the
  bounds check of \<^verbatim>\<open>select_image\<close> (not negative, below the length of the collection
  and of the list of gallery items), a selection without the Control modifier leaves
  every record of the collection with its selection flag false except the one at the
  index, whose flag is true, and changes nothing else of a record; the selected images
  are then exactly that record; selecting it again changes nothing; and when the record
  was already the only selected one, no record changes at all.
\<close>

theorem select_image_single:
  assumes "0 \<le> index" "index < int (length (headshot_data st))"
    "index < int (length (gallery_items st))"
    "modifiers \<noteq> {ControlModifier}" "distinct (headshot_data st)"
  shows "headshot_data (select_image modifiers index st) = headshot_data st \<and>
    (\<forall>d \<in> set (headshot_data st).
       heap (select_image modifiers index st) d =
         (heap st d)\<lparr>is_selected := (d = headshot_data st ! nat index)\<rparr>) \<and>
    get_selected_images (select_image modifiers index st) = [headshot_data st ! nat index] \<and>
    select_image modifiers index (select_image modifiers index st) =
      select_image modifiers index st \<and>
    (get_selected_images st = [headshot_data st ! nat index] \<longrightarrow>
       heap (select_image modifiers index st) = heap st)"
proof -
  let ?st' = "select_image modifiers index st"
  let ?R = "headshot_data st"
  note hp = select_single_heap[OF assms(4,1,2,3)]
  have k: "nat index < length ?R" using assms by simp
  have sel: "get_selected_images ?st' = [d \<leftarrow> ?R. d = ?R ! nat index]"
    unfolding get_selected_images_def select_single_frame(2)[OF assms(4)]
    by (rule filter_cong) (simp_all add: hp)
  have sole: "heap ?st' = heap st" if s: "get_selected_images st = [?R ! nat index]"
  proof
    fix r
    have "set [d \<leftarrow> ?R. is_selected (heap st d)] = {?R ! nat index}"
      using s by (simp add: get_selected_images_def)
    then have "r \<in> set ?R \<Longrightarrow> is_selected (heap st r) = (r = ?R ! nat index)"
      by auto
    then show "heap ?st' r = heap st r"
      by (cases "r \<in> set ?R") (simp_all add: hp)
  qed
  show ?thesis
    using sole sel filter_nth_distinct[OF assms(5) k] select_single_idem[OF assms(4,1,2,3)]
    by (simp add: select_single_frame(2)[OF assms(4)] hp)
qed

theorem select_image_single_witness:
  "get_selected_images (select_image {} 1 (select_image {ControlModifier} 2 demo_loaded)) = [1] \<and>
   get_selected_images (select_image {ControlModifier} 2 demo_loaded) = [2] \<and>
   \<not> is_selected (heap (select_image {} 1 (select_image {ControlModifier} 2 demo_loaded)) 2) \<and>
   is_selected (heap (select_image {ShiftModifier, ControlModifier} 1 demo_loaded) 1) \<and>
   select_image {} 1 (select_image {} 1 demo_loaded) = select_image {} 1 demo_loaded"
  using select_image_single[of 1 "select_image {ControlModifier} 2 demo_loaded" "{}"]
    select_image_single[of 1 demo_loaded "{}"]
  by (simp add: demo_simps)

subsection \<open>Selection with the Control modifier\<close>

lemma select_ctrl_eq:
  assumes "0 \<le> index" "index < int (length (headshot_data st))"
    "index < int (length (gallery_items st))"
  shows "select_image {ControlModifier} index st =
    st\<lparr>heap := (heap st)(headshot_data st ! nat index :=
            (heap st (headshot_data st ! nat index))
              \<lparr>is_selected := \<not> is_selected (heap st (headshot_data st ! nat index))\<rparr>),
       gallery_items := (gallery_items st)[nat index :=
            set_selected (\<not> is_selected (heap st (headshot_data st ! nat index)))
              (gallery_items st ! nat index)]\<rparr>"
  using assms by (simp add: select_image_def Let_def)

text \<open>
  \<^bold>\<open>C2.\<close> For every collection of distinct records and all distinct indices \<open>i\<close> and
  \<open>j\<close> that pass the bounds check, a selection with the Control modifier flips the
  selection flag of the record at the index and leaves every other record as it was.
  When the records at \<open>i\<close> and \<open>j\<close> start unselected, selecting \<open>i\<close> and then \<open>j\<close>
  adds exactly these two to the selected images, in collection order; when no record
  starts selected, the selected images are exactly the two records, in collection order.
\<close>

theorem select_image_multi:
  assumes "0 \<le> i" "i < int (length (headshot_data st))" "i < int (length (gallery_items st))"
    and "0 \<le> j" "j < int (length (headshot_data st))" "j < int (length (gallery_items st))"
    and "i \<noteq> j" "distinct (headshot_data st)"
  shows "headshot_data (select_image {ControlModifier} i st) = headshot_data st \<and>
    heap (select_image {ControlModifier} i st) (headshot_data st ! nat i) =
      (heap st (headshot_data st ! nat i))
        \<lparr>is_selected := \<not> is_selected (heap st (headshot_data st ! nat i))\<rparr> \<and>
    (\<forall>r. r \<noteq> headshot_data st ! nat i \<longrightarrow>
       heap (select_image {ControlModifier} i st) r = heap st r) \<and>
    (\<not> is_selected (heap st (headshot_data st ! nat i)) \<and>
     \<not> is_selected (heap st (headshot_data st ! nat j)) \<longrightarrow>
       get_selected_images (select_image {ControlModifier} j (select_image {ControlModifier} i st)) =
         [d \<leftarrow> headshot_data st.
            is_selected (heap st d) \<or> d = headshot_data st ! nat i \<or> d = headshot_data st ! nat j]) \<and>
    ((\<forall>d \<in> set (headshot_data st). \<not> is_selected (heap st d)) \<longrightarrow>
       get_selected_images (select_image {ControlModifier} j (select_image {ControlModifier} i st)) =
         (if i < j then [headshot_data st ! nat i, headshot_data st ! nat j]
          else [headshot_data st ! nat j, headshot_data st ! nat i]))"
proof -
  let ?R = "headshot_data st"
  let ?st1 = "select_image {ControlModifier} i st"
  let ?st2 = "select_image {ControlModifier} j ?st1"
  note e1 = select_ctrl_eq[OF assms(1,2,3)]
  have b1: "j < int (length (headshot_data ?st1))" "j < int (length (gallery_items ?st1))"
    using assms by (simp_all add: e1)
  note e2 = select_ctrl_eq[OF assms(4) b1]
  have ki: "nat i < length ?R" and kj: "nat j < length ?R" and ne: "nat i \<noteq> nat j"
    using assms by auto
  then have neq: "?R ! nat i \<noteq> ?R ! nat j"
    using assms(8) by (simp add: nth_eq_iff_index_eq)
  have gen: "get_selected_images ?st2 =
      [d \<leftarrow> ?R. is_selected (heap st d) \<or> d = ?R ! nat i \<or> d = ?R ! nat j]"
    if u: "\<not> is_selected (heap st (?R ! nat i))" "\<not> is_selected (heap st (?R ! nat j))"
  proof -
    have hd2: "headshot_data ?st2 = ?R" unfolding e2 by (simp add: e1)
    have flag: "is_selected (heap ?st2 d) =
        (is_selected (heap st d) \<or> d = ?R ! nat i \<or> d = ?R ! nat j)" for d
      unfolding e2 using u neq by (auto simp add: e1)
    show ?thesis
      unfolding get_selected_images_def hd2 by (simp add: flag)
  qed
  have all: "get_selected_images ?st2 =
      (if i < j then [?R ! nat i, ?R ! nat j] else [?R ! nat j, ?R ! nat i])"
    if n: "\<forall>d \<in> set ?R. \<not> is_selected (heap st d)"
  proof -
    have u: "\<not> is_selected (heap st (?R ! nat i))" "\<not> is_selected (heap st (?R ! nat j))"
      using n ki kj by simp_all
    have f: "[d \<leftarrow> ?R. is_selected (heap st d) \<or> d = ?R ! nat i \<or> d = ?R ! nat j] =
             [d \<leftarrow> ?R. d = ?R ! nat i \<or> d = ?R ! nat j]"
      using n by (intro filter_cong) auto
    show ?thesis
    proof (cases "i < j")
      case True
      then have "nat i < nat j" using assms by simp
      from filter_nth_pair_distinct[OF assms(8) this kj] gen[OF u] f True
      show ?thesis by simp
    next
      case False
      then have lt: "nat j < nat i" using assms by simp
      have "[d \<leftarrow> ?R. d = ?R ! nat i \<or> d = ?R ! nat j] = [d \<leftarrow> ?R. d = ?R ! nat j \<or> d = ?R ! nat i]"
        by (intro filter_cong) auto
      with filter_nth_pair_distinct[OF assms(8) lt ki] gen[OF u] f False
      show ?thesis by simp
    qed
  qed
  have a: "headshot_data ?st1 = ?R" by (simp add: e1)
  have b: "heap ?st1 (?R ! nat i) =
      (heap st (?R ! nat i))\<lparr>is_selected := \<not> is_selected (heap st (?R ! nat i))\<rparr>"
    by (simp add: e1)
  have c: "\<forall>r. r \<noteq> ?R ! nat i \<longrightarrow> heap ?st1 r = heap st r"
    by (simp add: e1)
  from a b c gen all show ?thesis by blast
qed

theorem select_image_multi_witness:
  "get_selected_images (select_image {ControlModifier} 0 (select_image {ControlModifier} 2 demo_loaded)) = [0, 2] \<and>
   is_selected (heap (select_image {ControlModifier} 2 demo_loaded) 2) \<and>
   heap (select_image {ControlModifier} 2 demo_loaded) 1 = heap demo_loaded 1"
  using select_image_multi[of 2 demo_loaded 0]
  by (simp add: demo_simps)

subsection \<open>An index out of bounds\<close>

text \<open>
  \<^bold>\<open>C3.\<close> For every state and every index that is negative or not below the length
  of the collection, \<^verbatim>\<open>select_image\<close> only appends the warning to the log: no record, no
  gallery item and not the collection changes, and the selected images are the same.
  The check is the first thing the function does, and the function returns normally.
\<close>

theorem select_image_out_of_bounds_unchanged:
  assumes "index < 0 \<or> index \<ge> int (length (headshot_data st))"
  shows "select_image modifiers index st = st\<lparr>trace := trace st @ [Log_warning_index_out_of_bounds index]\<rparr> \<and>
    heap (select_image modifiers index st) = heap st \<and>
    headshot_data (select_image modifiers index st) = headshot_data st \<and>
    gallery_items (select_image modifiers index st) = gallery_items st \<and>
    get_selected_images (select_image modifiers index st) = get_selected_images st"
  using assms by (auto simp add: select_image_def emit_def get_selected_images_def)

theorem select_image_out_of_bounds_unchanged_witness:
  "select_image {} 3 demo_loaded = demo_loaded\<lparr>trace := trace demo_loaded @ [Log_warning_index_out_of_bounds 3]\<rparr> \<and>
   select_image {ControlModifier} (- 1) demo_loaded =
     demo_loaded\<lparr>trace := trace demo_loaded @ [Log_warning_index_out_of_bounds (- 1)]\<rparr> \<and>
   get_selected_images (select_image {} 3 demo_loaded) = get_selected_images demo_loaded \<and>
   heap (select_image {ControlModifier} (- 1) demo_loaded) = heap demo_loaded"
  using select_image_out_of_bounds_unchanged[of 3 demo_loaded "{}"]
    select_image_out_of_bounds_unchanged[of "- 1" demo_loaded "{ControlModifier}"]
  by (simp add: demo_simps)

section \<open>Presets\<close>

lemma emit_simps [simp]:
  "heap (emit e st) = heap st" "next_ref (emit e st) = next_ref st"
  "presets (emit e st) = presets st" "headshot_data (emit e st) = headshot_data st"
  "gallery_items (emit e st) = gallery_items st"
  "editor_current_image (emit e st) = editor_current_image st"
  "editor_edit_settings (emit e st) = editor_edit_settings st"
  "hue_current_image (emit e st) = hue_current_image st"
  "hue_slider (emit e st) = hue_slider st" "hue_value (emit e st) = hue_value st"
  "trace (emit e st) = trace st @ [e]"
  by (simp_all add: emit_def)

lemma apply_preset_unknown:
  "presets st preset_name = None \<Longrightarrow> apply_preset preset_name image_data st = (False, st)"
  by (simp add: apply_preset_def)

lemma apply_preset_known_eq:
  "presets st preset_name = Some settings \<Longrightarrow>
   apply_preset preset_name image_data st =
     (True, emit (Emit_preset_applied preset_name) (emit (Api_apply_preset image_data preset_name) st))"
  by (simp add: apply_preset_def api_apply_preset_def)

lemma apply_preset_frame [simp]:
  "heap (snd (apply_preset n d st)) = heap st"
  "next_ref (snd (apply_preset n d st)) = next_ref st"
  "presets (snd (apply_preset n d st)) = presets st"
  "headshot_data (snd (apply_preset n d st)) = headshot_data st"
  "gallery_items (snd (apply_preset n d st)) = gallery_items st"
  "editor_current_image (snd (apply_preset n d st)) = editor_current_image st"
  "editor_edit_settings (snd (apply_preset n d st)) = editor_edit_settings st"
  "hue_current_image (snd (apply_preset n d st)) = hue_current_image st"
  "hue_slider (snd (apply_preset n d st)) = hue_slider st"
  "hue_value (snd (apply_preset n d st)) = hue_value st"
  by (cases "presets st n"; simp add: apply_preset_unknown apply_preset_known_eq)+

lemma apply_preset_each_frame [simp]:
  "heap (apply_preset_each n ds st) = heap st"
  "next_ref (apply_preset_each n ds st) = next_ref st"
  "presets (apply_preset_each n ds st) = presets st"
  "headshot_data (apply_preset_each n ds st) = headshot_data st"
  "gallery_items (apply_preset_each n ds st) = gallery_items st"
  "editor_current_image (apply_preset_each n ds st) = editor_current_image st"
  "editor_edit_settings (apply_preset_each n ds st) = editor_edit_settings st"
  "hue_current_image (apply_preset_each n ds st) = hue_current_image st"
  "hue_slider (apply_preset_each n ds st) = hue_slider st"
  "hue_value (apply_preset_each n ds st) = hue_value st"
  by (induction ds arbitrary: st; simp)+

lemma apply_preset_each_unknown:
  "presets st preset_name = None \<Longrightarrow> apply_preset_each preset_name targets st = st"
  by (induction targets arbitrary: st) (simp_all add: apply_preset_unknown)

lemma apply_preset_each_known_trace:
  "presets st preset_name = Some settings \<Longrightarrow>
   trace (apply_preset_each preset_name targets st) =
     trace st @ concat (map (\<lambda>d. [Api_apply_preset d preset_name, Emit_preset_applied preset_name]) targets)"
  by (induction targets arbitrary: st) (simp_all add: apply_preset_known_eq)

text \<open>
  \<^bold>\<open>C4.\<close> When the preset is in the catalog, \<^verbatim>\<open>apply_preset\<close> hands the record to the
  client, emits \<^verbatim>\<open>preset_applied\<close> and returns \<^verbatim>\<open>True\<close>, and that is all it does: no
  record changes, so the preset's parameters are not merged into any record's edit
  settings, for one target or for a list of targets. ``Studio Light'' resolves to
  brightness 20, contrast 10, warmth 8.
\<close>

theorem apply_preset_known_no_merge:
  assumes "presets st preset_name = Some settings"
  shows "apply_preset preset_name image_data st =
      (True, st\<lparr>trace := trace st @
                 [Api_apply_preset image_data preset_name, Emit_preset_applied preset_name]\<rparr>) \<and>
    heap (snd (apply_preset preset_name image_data st)) = heap st \<and>
    heap (apply_preset_each preset_name targets st) = heap st \<and>
    trace (apply_preset_each preset_name targets st) =
      trace st @ concat (map (\<lambda>d. [Api_apply_preset d preset_name,
                                     Emit_preset_applied preset_name]) targets) \<and>
    heap (apply_preset_to_selected preset_name st) = heap st \<and>
    get_preset_settings ''Studio Light'' (snd (load_presets st)) =
      Some [''brightness'' \<mapsto> 20, ''contrast'' \<mapsto> 10, ''warmth'' \<mapsto> 8]"
  using assms apply_preset_each_known_trace[OF assms]
  by (simp add: apply_preset_known_eq emit_def apply_preset_to_selected_def
      get_preset_settings_def load_presets_def mock_presets_def Let_def)

lemmas demo_preset_simps = demo_loaded_def loaded_record_def blank_HeadshotData_def
  apply_preset_def api_apply_preset_def emit_def Let_def mock_presets_def get_preset_settings_def
  apply_preset_to_selected_def

theorem apply_preset_known_no_merge_witness:
  "apply_preset ''Studio Light'' 0 demo_loaded =
     (True, demo_loaded\<lparr>trace := [Api_apply_preset 0 ''Studio Light'',
                                   Emit_preset_applied ''Studio Light'']\<rparr>) \<and>
   heap (apply_preset_each ''Studio Light'' [0] demo_loaded) 0 = heap demo_loaded 0"
  using apply_preset_known_no_merge[of demo_loaded "''Studio Light''"
      "[''brightness'' \<mapsto> 20, ''contrast'' \<mapsto> 10, ''warmth'' \<mapsto> 8]" 0 "[0]"]
  by (simp add: demo_preset_simps)

theorem apply_preset_merge_counterexample:
  "get_preset_settings ''Studio Light'' demo_loaded =
     Some [''brightness'' \<mapsto> 20, ''contrast'' \<mapsto> 10, ''warmth'' \<mapsto> 8] \<and>
   edit_settings (heap demo_loaded 0) = Map.empty \<and>
   fst (apply_preset ''Studio Light'' 0 demo_loaded) = True \<and>
   edit_settings (heap (snd (apply_preset ''Studio Light'' 0 demo_loaded)) 0) = Map.empty \<and>
   edit_settings (heap (snd (apply_preset ''Studio Light'' 0 demo_loaded)) 0) ''brightness'' \<noteq> Some 20"
  by (simp add: demo_preset_simps)

text \<open>
  \<^bold>\<open>C5.\<close> For every preset name that is not in the catalog, every record and every list
  of targets, \<^verbatim>\<open>apply_preset\<close> returns \<^verbatim>\<open>False\<close> and the state is the one before the call:
  no call of the client, no signal, no change of any record.
\<close>

theorem apply_preset_unknown_rejected:
  assumes "presets st preset_name = None"
  shows "apply_preset preset_name image_data st = (False, st) \<and>
    apply_preset_each preset_name targets st = st \<and>
    apply_preset_to_selected preset_name st = st"
  using assms
  by (simp add: apply_preset_unknown apply_preset_each_unknown apply_preset_to_selected_def)

theorem apply_preset_unknown_rejected_witness:
  "apply_preset ''Nonexistent'' 0 demo_loaded = (False, demo_loaded) \<and>
   apply_preset_each ''Nonexistent'' [0, 1, 2] demo_loaded = demo_loaded \<and>
   apply_preset_to_selected ''Nonexistent'' (select_image {} 1 demo_loaded) =
     select_image {} 1 demo_loaded"
  using apply_preset_unknown_rejected[of demo_loaded "''Nonexistent''" 0 "[0, 1, 2]"]
    apply_preset_unknown_rejected[of "select_image {} 1 demo_loaded" "''Nonexistent''" 0 "[]"]
  by (simp add: demo_preset_simps select_single_frame)

section \<open>Batch submission\<close>

lemma process_single_image_frame [simp]:
  "heap (process_single_image d s st) = heap st"
  "next_ref (process_single_image d s st) = next_ref st"
  "presets (process_single_image d s st) = presets st"
  "headshot_data (process_single_image d s st) = headshot_data st"
  "gallery_items (process_single_image d s st) = gallery_items st"
  "editor_current_image (process_single_image d s st) = editor_current_image st"
  "editor_edit_settings (process_single_image d s st) = editor_edit_settings st"
  "hue_current_image (process_single_image d s st) = hue_current_image st"
  "hue_slider (process_single_image d s st) = hue_slider st"
  "hue_value (process_single_image d s st) = hue_value st"
  by (simp_all add: process_single_image_def)

lemma process_batch_loop_frame [simp]:
  "heap (process_batch_loop i n ds s st) = heap st"
  "next_ref (process_batch_loop i n ds s st) = next_ref st"
  "presets (process_batch_loop i n ds s st) = presets st"
  "headshot_data (process_batch_loop i n ds s st) = headshot_data st"
  "gallery_items (process_batch_loop i n ds s st) = gallery_items st"
  "editor_current_image (process_batch_loop i n ds s st) = editor_current_image st"
  "editor_edit_settings (process_batch_loop i n ds s st) = editor_edit_settings st"
  "hue_current_image (process_batch_loop i n ds s st) = hue_current_image st"
  "hue_slider (process_batch_loop i n ds s st) = hue_slider st"
  "hue_value (process_batch_loop i n ds s st) = hue_value st"
  by (induction ds arbitrary: i st; simp)+

lemma process_batch_loop_calls:
  "Processor_process_batch ts \<in> set (trace (process_batch_loop i n ds s st)) \<longleftrightarrow>
   Processor_process_batch ts \<in> set (trace st)"
  by (induction ds arbitrary: i st) (auto simp add: process_single_image_def)

lemma submit_gallery_settings_frame [simp]:
  "heap (submit_gallery_settings st) = heap st"
  "next_ref (submit_gallery_settings st) = next_ref st"
  "presets (submit_gallery_settings st) = presets st"
  "headshot_data (submit_gallery_settings st) = headshot_data st"
  "gallery_items (submit_gallery_settings st) = gallery_items st"
  "editor_current_image (submit_gallery_settings st) = editor_current_image st"
  "editor_edit_settings (submit_gallery_settings st) = editor_edit_settings st"
  "hue_current_image (submit_gallery_settings st) = hue_current_image st"
  "hue_slider (submit_gallery_settings st) = hue_slider st"
  "hue_value (submit_gallery_settings st) = hue_value st"
  by (simp_all add: submit_gallery_settings_def apply_batch_edits_def process_batch_def Let_def)

lemma process_batch_loop_trace:
  "\<exists>evs. trace (process_batch_loop i n ds s st) = trace st @ evs"
proof (induction ds arbitrary: i st)
  case Nil
  then show ?case by simp
next
  case (Cons d ds)
  obtain evs where
    "trace (process_batch_loop (Suc i) n ds s
        (process_single_image d s (emit (Emit_processing_progress (Percent_of (i + 1) n)) st))) =
     trace (process_single_image d s (emit (Emit_processing_progress (Percent_of (i + 1) n)) st)) @ evs"
    using Cons.IH by blast
  then show ?case by (simp add: process_single_image_def)
qed

text \<open>
  \<^bold>\<open>C7.\<close> When no record is selected, \<^verbatim>\<open>submit_gallery_settings\<close> returns the state it
  was given: the batch processor is not called and nothing changes. When records are
  selected, the first thing it adds to the trace is the call of the batch processor with
  exactly those records. So it never adds a call of the batch processor with no target,
  and it never changes a record. For every settings mapping, \<^verbatim>\<open>process_batch\<close> itself
  runs its loop zero times on an empty list: it processes no image and emits no signal.
\<close>

theorem submit_gallery_settings_no_targets:
  "(get_selected_images st = [] \<longrightarrow> submit_gallery_settings st = st) \<and>
   (get_selected_images st \<noteq> [] \<longrightarrow>
      take (Suc (length (trace st))) (trace (submit_gallery_settings st)) =
        trace st @ [Processor_process_batch (get_selected_images st)]) \<and>
   (Processor_process_batch [] \<in> set (trace (submit_gallery_settings st)) \<longrightarrow>
      Processor_process_batch [] \<in> set (trace st)) \<and>
   heap (submit_gallery_settings st) = heap st \<and>
   process_batch [] settings st = emit (Processor_process_batch []) st"
proof -
  let ?sel = "get_selected_images st"
  have a: "?sel = [] \<longrightarrow> submit_gallery_settings st = st"
    by (simp add: submit_gallery_settings_def get_selected_images_def Let_def)
  have c: "Processor_process_batch [] \<in> set (trace (submit_gallery_settings st)) \<longrightarrow>
      Processor_process_batch [] \<in> set (trace st)"
    by (auto simp add: submit_gallery_settings_def apply_batch_edits_def process_batch_def
        Let_def process_batch_loop_calls)
  have b: "take (Suc (length (trace st))) (trace (submit_gallery_settings st)) =
        trace st @ [Processor_process_batch ?sel]" if ne: "?sel \<noteq> []"
  proof -
    obtain evs where
      "trace (process_batch_loop 0 (length ?sel) ?sel gallery_form_settings
                (emit (Processor_process_batch ?sel) st)) =
       trace (emit (Processor_process_batch ?sel) st) @ evs"
      using process_batch_loop_trace by blast
    with ne show ?thesis
      by (simp add: submit_gallery_settings_def apply_batch_edits_def process_batch_def
          Let_def get_selected_images_def)
  qed
  have d: "process_batch [] settings st = emit (Processor_process_batch []) st"
    by (simp add: process_batch_def)
  from a b c d show ?thesis by simp
qed

lemmas demo_batch_simps = demo_loaded_def loaded_record_def blank_HeadshotData_def
  submit_gallery_settings_def apply_batch_edits_def process_batch_def process_single_image_def
  get_selected_images_def select_image_def set_selected_def emit_def Let_def

theorem submit_gallery_settings_no_targets_witness:
  "get_selected_images demo_loaded = [] \<and>
   submit_gallery_settings demo_loaded = demo_loaded \<and>
   trace (submit_gallery_settings demo_loaded) = [] \<and>
   take 1 (trace (submit_gallery_settings (select_image {} 1 demo_loaded))) =
     [Processor_process_batch [1]] \<and>
   process_batch [] gallery_form_settings demo_loaded =
     demo_loaded\<lparr>trace := [Processor_process_batch []]\<rparr>"
  using submit_gallery_settings_no_targets[of demo_loaded gallery_form_settings]
    submit_gallery_settings_no_targets[of "select_image {} 1 demo_loaded" gallery_form_settings]
  by (simp add: demo_batch_simps)

section \<open>Hue adjustment\<close>

subsection \<open>What no call of the slots changes\<close>

lemma hue_slots_frame:
  assumes "hue_slots int_of call st = Some st'"
  shows "heap st' = heap st \<and> next_ref st' = next_ref st \<and> presets st' = presets st \<and>
    headshot_data st' = headshot_data st \<and> gallery_items st' = gallery_items st \<and>
    editor_current_image st' = editor_current_image st \<and>
    editor_edit_settings st' = editor_edit_settings st \<and>
    hue_current_image st' = hue_current_image st"
proof (rule hue_slots.raw_induct[where P = "\<lambda>f c s y.
    heap y = heap s \<and> next_ref y = next_ref s \<and> presets y = presets s \<and>
    headshot_data y = headshot_data s \<and> gallery_items y = gallery_items s \<and>
    editor_current_image y = editor_current_image s \<and>
    editor_edit_settings y = editor_edit_settings s \<and>
    hue_current_image y = hue_current_image s", OF _ assms], goal_cases)
  case (1 slots f c s y)
  note IH = 1(1)
  show ?case
  proof (cases c)
    case (Call_setText t)
    with 1(2) show ?thesis
      by (auto split: option.splits if_splits dest!: IH)
  next
    case (Call_setValue v)
    with 1(2) show ?thesis
      by (auto simp add: Let_def bind_eq_Some_conv split: option.splits if_splits dest!: IH)
  next
    case (Call_update_hue v)
    with 1(2) show ?thesis
      by (auto simp add: bind_eq_Some_conv api_adjust_hue_def split: option.splits if_splits
          dest!: IH)
  next
    case (Call_update_slider_from_text tx)
    with 1(2) show ?thesis
      by (auto split: option.splits if_splits dest!: IH)
  next
    case (Call_update_slider_value_field v)
    with 1(2) show ?thesis
      by (auto split: option.splits if_splits dest!: IH)
  next
    case Call_reset_hue
    with 1(2) show ?thesis
      by (auto split: option.splits if_splits dest!: IH)
  qed
qed

subsection \<open>One step of each call\<close>

lemma call_setText:
  "hue_slots f (Call_setText t) st =
     (case hue_value st of
        None \<Rightarrow> Some st
      | Some old \<Rightarrow>
          if t = old then Some st
          else hue_slots f (Call_update_slider_from_text t) (st\<lparr>hue_value := Some t\<rparr>))"
  by (subst hue_slots.simps) simp

lemma call_setValue:
  "hue_slots f (Call_setValue v) st =
     (case hue_slider st of
        None \<Rightarrow> Some st
      | Some cur \<Rightarrow>
          (let b = max (- 180) (min 180 v)
           in if b = cur then Some st
              else Option.bind (hue_slots f (Call_update_hue b) (st\<lparr>hue_slider := Some b\<rparr>))
                     (\<lambda>st2. hue_slots f (Call_update_slider_value_field b) st2)))"
  by (subst hue_slots.simps) simp

lemma call_update_hue:
  "hue_slots f (Call_update_hue v) st =
     Option.bind
       (case hue_value st of
          Some _ \<Rightarrow> hue_slots f (Call_setText (str_int v)) st
        | None \<Rightarrow> Some st)
       (\<lambda>st1. case hue_current_image st1 of
                 Some img \<Rightarrow> Some (snd (api_adjust_hue img v st1))
               | None \<Rightarrow> Some st1)"
  by (subst hue_slots.simps) simp

lemma call_update_slider_from_text:
  "hue_slots f (Call_update_slider_from_text text) st =
     (case f text of
        None \<Rightarrow> Some st
      | Some v \<Rightarrow>
          if - 180 \<le> v \<and> v \<le> 180 \<and> hue_slider st \<noteq> None
          then hue_slots f (Call_setValue v) st
          else Some st)"
  by (subst hue_slots.simps) simp

lemma call_update_slider_value_field:
  "hue_slots f (Call_update_slider_value_field v) st =
     (case hue_value st of
        Some _ \<Rightarrow> hue_slots f (Call_setText (str_int v)) st
      | None \<Rightarrow> Some st)"
  by (subst hue_slots.simps) simp

lemma call_reset_hue:
  "hue_slots f Call_reset_hue st =
     (case hue_slider st of
        Some _ \<Rightarrow> hue_slots f (Call_setValue 0) st
      | None \<Rightarrow> Some st)"
  by (subst hue_slots.simps) simp

lemmas call_simps = call_setText call_setValue call_update_hue call_update_slider_from_text
  call_update_slider_value_field call_reset_hue

text \<open>The text is already the one written: no signal.\<close>

lemma setText_same:
  "hue_value st = Some t \<Longrightarrow> hue_slots f (Call_setText t) st = Some st"
  by (simp add: call_setText)

text \<open>The value read back from the text is where the slider already is, or out of range.\<close>

lemma setText_no_move:
  assumes "hue_value st = Some old" "old \<noteq> str_int v" "f (str_int v) = Some v"
    "v < - 180 \<or> 180 < v \<or> hue_slider st = None \<or> hue_slider st = Some v"
  shows "hue_slots f (Call_setText (str_int v)) st = Some (st\<lparr>hue_value := Some (str_int v)\<rparr>)"
  using assms by (auto simp add: call_setText call_update_slider_from_text call_setValue Let_def)

lemma update_hue_settled_text:
  assumes "hue_value st = None \<or> hue_value st = Some (str_int v)"
  shows "hue_slots f (Call_update_hue v) st =
     Some (st\<lparr>trace := trace st @ client_calls (hue_current_image st) v\<rparr>)"
  using assms
  by (auto simp add: call_update_hue setText_same client_calls_def api_adjust_hue_def emit_def
      split: option.splits)

lemma update_hue_no_move:
  assumes "hue_value st = Some old" "old \<noteq> str_int v" "f (str_int v) = Some v"
    "v < - 180 \<or> 180 < v \<or> hue_slider st = None \<or> hue_slider st = Some v"
  shows "hue_slots f (Call_update_hue v) st =
     Some (st\<lparr>hue_value := Some (str_int v),
              trace := trace st @ client_calls (hue_current_image st) v\<rparr>)"
proof -
  have "hue_slots f (Call_setText (str_int v)) st = Some (st\<lparr>hue_value := Some (str_int v)\<rparr>)"
    using assms by (rule setText_no_move)
  with assms(1) show ?thesis
    by (simp add: call_update_hue client_calls_def api_adjust_hue_def emit_def
        split: option.splits)
qed

text \<open>\<^verbatim>\<open>setValue\<close> with a value in range that moves the slider.\<close>

lemma setValue_moves:
  assumes "hue_slider st = Some cur" "cur \<noteq> v" "- 180 \<le> v" "v \<le> 180" "f (str_int v) = Some v"
  shows "hue_slots f (Call_setValue v) st =
     Some (st\<lparr>hue_slider := Some v,
              hue_value := map_option (\<lambda>_. str_int v) (hue_value st),
              trace := trace st @ client_calls (hue_current_image st) v\<rparr>)"
proof (cases "hue_value st")
  case None
  with assms show ?thesis
    by (simp add: call_setValue Let_def update_hue_settled_text call_update_slider_value_field)
next
  case (Some old)
  show ?thesis
  proof (cases "old = str_int v")
    case True
    with Some assms show ?thesis
      by (simp add: call_setValue Let_def update_hue_settled_text call_update_slider_value_field
          setText_same)
  next
    case False
    have "hue_slots f (Call_update_hue v) (st\<lparr>hue_slider := Some v\<rparr>) =
        Some (st\<lparr>hue_slider := Some v, hue_value := Some (str_int v),
                 trace := trace st @ client_calls (hue_current_image st) v\<rparr>)"
      using update_hue_no_move[of "st\<lparr>hue_slider := Some v\<rparr>" old v f] Some False assms
      by simp
    with Some assms show ?thesis
      by (simp add: call_setValue Let_def call_update_slider_value_field setText_same)
  qed
qed

lemma setValue_same:
  assumes "hue_slider st = Some v" "- 180 \<le> v" "v \<le> 180"
  shows "hue_slots f (Call_setValue v) st = Some st"
  using assms by (simp add: call_setValue Let_def)

lemma update_hue_moves:
  assumes "hue_value st = Some old" "old \<noteq> str_int v" "f (str_int v) = Some v"
    "- 180 \<le> v" "v \<le> 180" "hue_slider st = Some cur" "cur \<noteq> v"
  shows "hue_slots f (Call_update_hue v) st =
     Some (st\<lparr>hue_slider := Some v, hue_value := Some (str_int v),
              trace := trace st @ client_calls (hue_current_image st) v @
                       client_calls (hue_current_image st) v\<rparr>)"
proof -
  have "hue_slots f (Call_setValue v) (st\<lparr>hue_value := Some (str_int v)\<rparr>) =
      Some (st\<lparr>hue_slider := Some v, hue_value := Some (str_int v),
               trace := trace st @ client_calls (hue_current_image st) v\<rparr>)"
    using setValue_moves[of "st\<lparr>hue_value := Some (str_int v)\<rparr>" cur v f] assms by simp
  with assms show ?thesis
    by (simp add: call_update_hue call_setText call_update_slider_from_text client_calls_def
        api_adjust_hue_def emit_def split: option.splits)
qed

subsection \<open>The entry points\<close>

lemma settled_slots_frame [simp]:
  "heap (settled st (hue_slots f c st)) = heap st"
  "next_ref (settled st (hue_slots f c st)) = next_ref st"
  "presets (settled st (hue_slots f c st)) = presets st"
  "headshot_data (settled st (hue_slots f c st)) = headshot_data st"
  "gallery_items (settled st (hue_slots f c st)) = gallery_items st"
  "editor_current_image (settled st (hue_slots f c st)) = editor_current_image st"
  "editor_edit_settings (settled st (hue_slots f c st)) = editor_edit_settings st"
  "hue_current_image (settled st (hue_slots f c st)) = hue_current_image st"
  by (cases "hue_slots f c st"; simp add: settled_def hue_slots_frame)+

lemma settled_hue_frame [simp]:
  "heap (settled st (update_hue f v st)) = heap st"
  "presets (settled st (update_hue f v st)) = presets st"
  "headshot_data (settled st (update_hue f v st)) = headshot_data st"
  "editor_current_image (settled st (update_hue f v st)) = editor_current_image st"
  "editor_edit_settings (settled st (update_hue f v st)) = editor_edit_settings st"
  "heap (settled st (update_slider_from_text f t st)) = heap st"
  "presets (settled st (update_slider_from_text f t st)) = presets st"
  "headshot_data (settled st (update_slider_from_text f t st)) = headshot_data st"
  "editor_current_image (settled st (update_slider_from_text f t st)) = editor_current_image st"
  "editor_edit_settings (settled st (update_slider_from_text f t st)) = editor_edit_settings st"
  "heap (settled st (reset_hue f st)) = heap st"
  "presets (settled st (reset_hue f st)) = presets st"
  "headshot_data (settled st (reset_hue f st)) = headshot_data st"
  "editor_current_image (settled st (reset_hue f st)) = editor_current_image st"
  "editor_edit_settings (settled st (reset_hue f st)) = editor_edit_settings st"
  by (simp_all add: update_hue_def update_slider_from_text_def reset_hue_def)

lemma update_slider_from_text_ignored:
  assumes "int_of text = None \<or>
    (\<exists>u. int_of text = Some u \<and>
         (u < - 180 \<or> 180 < u \<or> hue_slider st = None \<or> hue_slider st = Some u))"
  shows "update_slider_from_text int_of text st = Some st"
  using assms
  by (auto simp add: update_slider_from_text_def call_update_slider_from_text setValue_same)

lemma update_slider_from_text_moves:
  assumes "int_of text = Some u" "- 180 \<le> u" "u \<le> 180" "hue_slider st = Some cur" "cur \<noteq> u"
    "int_of (str_int u) = Some u"
  shows "update_slider_from_text int_of text st =
     Some (st\<lparr>hue_slider := Some u,
              hue_value := map_option (\<lambda>_. str_int u) (hue_value st),
              trace := trace st @ client_calls (hue_current_image st) u\<rparr>)"
  using assms setValue_moves[of st cur u int_of]
  by (simp add: update_slider_from_text_def call_update_slider_from_text)

lemma reset_hue_settled:
  assumes "int_of (str_int 0) = Some 0"
  shows "reset_hue int_of st =
     (case hue_slider st of
        None \<Rightarrow> Some st
      | Some cur \<Rightarrow>
          if cur = 0 then Some st
          else Some (st\<lparr>hue_slider := Some 0,
                        hue_value := map_option (\<lambda>_. str_int 0) (hue_value st),
                        trace := trace st @ client_calls (hue_current_image st) 0\<rparr>))"
proof (cases "hue_slider st")
  case None
  then show ?thesis by (simp add: reset_hue_def call_reset_hue)
next
  case (Some cur)
  show ?thesis
  proof (cases "cur = 0")
    case True
    with Some show ?thesis by (simp add: reset_hue_def call_reset_hue setValue_same)
  next
    case False
    with Some assms setValue_moves[of st cur 0 int_of] show ?thesis
      by (simp add: reset_hue_def call_reset_hue)
  qed
qed

text \<open>The calls come to an end when \<open>int_of\<close> reads back the number written.\<close>

lemma update_hue_returns:
  assumes "int_of (str_int v) = Some v"
  shows "update_hue int_of v st \<noteq> None"
proof (cases "hue_value st = None \<or> hue_value st = Some (str_int v)")
  case True
  then show ?thesis
    using update_hue_settled_text[of st v int_of] by (simp add: update_hue_def)
next
  case False
  then obtain old where old: "hue_value st = Some old" "old \<noteq> str_int v" by auto
  show ?thesis
  proof (cases "v < - 180 \<or> 180 < v \<or> hue_slider st = None \<or> hue_slider st = Some v")
    case True
    with old assms update_hue_no_move[of st old v int_of] show ?thesis
      by (simp add: update_hue_def)
  next
    case False
    then obtain cur where "hue_slider st = Some cur" "cur \<noteq> v" "- 180 \<le> v" "v \<le> 180"
      by auto
    with old assms update_hue_moves[of st old v int_of cur] show ?thesis
      by (simp add: update_hue_def)
  qed
qed

lemma update_slider_from_text_returns:
  assumes "int_of text = None \<or> (int_of text = Some u \<and> int_of (str_int u) = Some u)"
  shows "update_slider_from_text int_of text st \<noteq> None"
proof (cases "int_of text")
  case None
  then show ?thesis by (simp add: update_slider_from_text_ignored)
next
  case (Some w)
  with assms have u: "int_of text = Some u" "int_of (str_int u) = Some u" by auto
  show ?thesis
  proof (cases "u < - 180 \<or> 180 < u \<or> hue_slider st = None \<or> hue_slider st = Some u")
    case True
    with u update_slider_from_text_ignored[of int_of "text" st] show ?thesis by auto
  next
    case False
    then obtain cur where "hue_slider st = Some cur" "cur \<noteq> u" "- 180 \<le> u" "u \<le> 180"
      by auto
    with u update_slider_from_text_moves[of int_of "text" u st cur] show ?thesis by simp
  qed
qed

lemma reset_hue_returns:
  assumes "int_of (str_int 0) = Some 0"
  shows "reset_hue int_of st \<noteq> None"
  using assms reset_hue_settled[of int_of st] by (simp split: option.splits)

text \<open>
  \<^bold>\<open>C6.\<close> \<^verbatim>\<open>update_hue\<close> checks nothing and reports nothing, and no call of the hue
  tab's slots changes a record. For every value, \<^verbatim>\<open>update_hue\<close> writes the value field
  and, when an image is set, hands the value to the client's \<^verbatim>\<open>adjust_hue\<close>: once when
  the field already shows the value, or when the value read back from the field is
  out of range or is where the slider already is; twice (the slider moves, and its
  \<^verbatim>\<open>valueChanged\<close> runs \<^verbatim>\<open>update_hue\<close> again) when the value is in range and the
  slider was elsewhere. The range from -180 to 180 is checked only in
  \<^verbatim>\<open>update_slider_from_text\<close>, which leaves the state as it is when the text is not
  an integer, or the integer is out of range or where the slider already is, and
  otherwise moves the slider, whose slots write the field and hand the value to the
  client once. Here \<open>int_of\<close> reads back the number that \<^verbatim>\<open>str\<close> has written, as
  Python's \<^verbatim>\<open>int\<close> does; then both slots return.
\<close>

theorem update_hue_forwards_every_value:
  "(update_hue int_of v st = Some st' \<longrightarrow> heap st' = heap st) \<and>
   (update_slider_from_text int_of text st = Some st' \<longrightarrow> heap st' = heap st) \<and>
   (int_of (str_int v) = Some v \<longrightarrow> update_hue int_of v st \<noteq> None) \<and>
   (int_of text = None \<or> (int_of text = Some u \<and> int_of (str_int u) = Some u) \<longrightarrow>
      update_slider_from_text int_of text st \<noteq> None) \<and>
   (hue_value st = None \<or> hue_value st = Some (str_int v) \<longrightarrow>
      update_hue int_of v st =
        Some (st\<lparr>trace := trace st @ client_calls (hue_current_image st) v\<rparr>)) \<and>
   (hue_value st = Some old \<and> old \<noteq> str_int v \<and> int_of (str_int v) = Some v \<and>
    (v < - 180 \<or> 180 < v \<or> hue_slider st = None \<or> hue_slider st = Some v) \<longrightarrow>
      update_hue int_of v st =
        Some (st\<lparr>hue_value := Some (str_int v),
                 trace := trace st @ client_calls (hue_current_image st) v\<rparr>)) \<and>
   (hue_value st = Some old \<and> old \<noteq> str_int v \<and> int_of (str_int v) = Some v \<and>
    - 180 \<le> v \<and> v \<le> 180 \<and> hue_slider st = Some cur \<and> cur \<noteq> v \<longrightarrow>
      update_hue int_of v st =
        Some (st\<lparr>hue_slider := Some v, hue_value := Some (str_int v),
                 trace := trace st @ client_calls (hue_current_image st) v @
                          client_calls (hue_current_image st) v\<rparr>)) \<and>
   (int_of text = None \<longrightarrow> update_slider_from_text int_of text st = Some st) \<and>
   (int_of text = Some u \<and>
    (u < - 180 \<or> 180 < u \<or> hue_slider st = None \<or> hue_slider st = Some u) \<longrightarrow>
      update_slider_from_text int_of text st = Some st) \<and>
   (int_of text = Some u \<and> - 180 \<le> u \<and> u \<le> 180 \<and> hue_slider st = Some cur \<and> cur \<noteq> u \<and>
    int_of (str_int u) = Some u \<longrightarrow>
      update_slider_from_text int_of text st =
        Some (st\<lparr>hue_slider := Some u,
                 hue_value := map_option (\<lambda>_. str_int u) (hue_value st),
                 trace := trace st @ client_calls (hue_current_image st) u\<rparr>))"
proof -
  have a: "update_hue int_of v st = Some st' \<longrightarrow> heap st' = heap st"
    by (simp add: update_hue_def hue_slots_frame)
  have b: "update_slider_from_text int_of text st = Some st' \<longrightarrow> heap st' = heap st"
    by (simp add: update_slider_from_text_def hue_slots_frame)
  have r: "int_of (str_int v) = Some v \<longrightarrow> update_hue int_of v st \<noteq> None"
    using update_hue_returns[of int_of v st] by blast
  have s: "int_of text = None \<or> (int_of text = Some u \<and> int_of (str_int u) = Some u) \<longrightarrow>
      update_slider_from_text int_of text st \<noteq> None"
    using update_slider_from_text_returns[of int_of "text" u st] by blast
  have c: "hue_value st = None \<or> hue_value st = Some (str_int v) \<longrightarrow>
      update_hue int_of v st =
        Some (st\<lparr>trace := trace st @ client_calls (hue_current_image st) v\<rparr>)"
    using update_hue_settled_text[of st v int_of] by (simp add: update_hue_def)
  have d: "hue_value st = Some old \<and> old \<noteq> str_int v \<and> int_of (str_int v) = Some v \<and>
    (v < - 180 \<or> 180 < v \<or> hue_slider st = None \<or> hue_slider st = Some v) \<longrightarrow>
      update_hue int_of v st =
        Some (st\<lparr>hue_value := Some (str_int v),
                 trace := trace st @ client_calls (hue_current_image st) v\<rparr>)"
    using update_hue_no_move[of st old v int_of] by (simp add: update_hue_def)
  have e: "hue_value st = Some old \<and> old \<noteq> str_int v \<and> int_of (str_int v) = Some v \<and>
    - 180 \<le> v \<and> v \<le> 180 \<and> hue_slider st = Some cur \<and> cur \<noteq> v \<longrightarrow>
      update_hue int_of v st =
        Some (st\<lparr>hue_slider := Some v, hue_value := Some (str_int v),
                 trace := trace st @ client_calls (hue_current_image st) v @
                          client_calls (hue_current_image st) v\<rparr>)"
    using update_hue_moves[of st old v int_of cur] by (simp add: update_hue_def)
  have f: "int_of text = None \<longrightarrow> update_slider_from_text int_of text st = Some st"
    by (simp add: update_slider_from_text_ignored)
  have g: "int_of text = Some u \<and>
    (u < - 180 \<or> 180 < u \<or> hue_slider st = None \<or> hue_slider st = Some u) \<longrightarrow>
      update_slider_from_text int_of text st = Some st"
    using update_slider_from_text_ignored[of int_of "text" st] by blast
  have h: "int_of text = Some u \<and> - 180 \<le> u \<and> u \<le> 180 \<and> hue_slider st = Some cur \<and> cur \<noteq> u \<and>
    int_of (str_int u) = Some u \<longrightarrow>
      update_slider_from_text int_of text st =
        Some (st\<lparr>hue_slider := Some u,
                 hue_value := map_option (\<lambda>_. str_int u) (hue_value st),
                 trace := trace st @ client_calls (hue_current_image st) u\<rparr>)"
    using update_slider_from_text_moves[of int_of "text" u st cur] by blast
  from a b r s c d e f g h show ?thesis by blast
qed

lemmas demo_hue_simps = demo_loaded_def loaded_record_def blank_HeadshotData_def
  hue_set_current_image_def client_calls_def str_int_def digit_char_def

theorem update_hue_forwards_every_value_witness:
  "update_hue [''45'' \<mapsto> 45] 45 (hue_set_current_image 0 demo_loaded) =
     Some (hue_set_current_image 0 demo_loaded
             \<lparr>hue_slider := Some 45, hue_value := Some ''45'',
              trace := [Api_adjust_hue 0 45, Api_adjust_hue 0 45]\<rparr>) \<and>
   update_hue [''45'' \<mapsto> 45] 0 (hue_set_current_image 0 demo_loaded) =
     Some (hue_set_current_image 0 demo_loaded\<lparr>trace := [Api_adjust_hue 0 0]\<rparr>) \<and>
   update_slider_from_text [''200'' \<mapsto> 200, ''90'' \<mapsto> 90] ''abc'' demo_loaded =
     Some demo_loaded \<and>
   update_slider_from_text [''200'' \<mapsto> 200, ''90'' \<mapsto> 90] ''200'' demo_loaded =
     Some demo_loaded \<and>
   update_slider_from_text [''200'' \<mapsto> 200, ''90'' \<mapsto> 90] ''90''
       (hue_set_current_image 0 demo_loaded) =
     Some (hue_set_current_image 0 demo_loaded
             \<lparr>hue_slider := Some 90, hue_value := Some ''90'',
              trace := [Api_adjust_hue 0 90]\<rparr>)"
  using update_hue_forwards_every_value[of "[''45'' \<mapsto> 45]" 45
      "hue_set_current_image 0 demo_loaded" "hue_set_current_image 0 demo_loaded"
      "''abc''" 0 "''0''" 0]
    update_hue_forwards_every_value[of "[''45'' \<mapsto> 45]" 0
      "hue_set_current_image 0 demo_loaded" "hue_set_current_image 0 demo_loaded"
      "''abc''" 0 "''0''" 0]
    update_hue_forwards_every_value[of "[''200'' \<mapsto> 200, ''90'' \<mapsto> 90]" 0
      demo_loaded demo_loaded "''abc''" 0 "''0''" 0]
    update_hue_forwards_every_value[of "[''200'' \<mapsto> 200, ''90'' \<mapsto> 90]" 0
      demo_loaded demo_loaded "''200''" 200 "''0''" 0]
    update_hue_forwards_every_value[of "[''200'' \<mapsto> 200, ''90'' \<mapsto> 90]" 0
      "hue_set_current_image 0 demo_loaded" "hue_set_current_image 0 demo_loaded"
      "''90''" 90 "''0''" 0]
  by (simp add: demo_hue_simps)

text \<open>
  A hue of 200 is not rejected: it is written to the value field and handed to the
  client. (Read back from the field it is out of range, so the slider stays.)
\<close>

theorem update_hue_out_of_range_counterexample:
  "trace (hue_set_current_image 0 demo_loaded) = [] \<and>
   update_hue [''200'' \<mapsto> 200] 200 (hue_set_current_image 0 demo_loaded) =
     Some (hue_set_current_image 0 demo_loaded
             \<lparr>hue_value := Some ''200'', trace := [Api_adjust_hue 0 200]\<rparr>)"
  using update_hue_no_move[of "hue_set_current_image 0 demo_loaded" "''0''" 200
      "[''200'' \<mapsto> 200]"]
  by (simp add: update_hue_def demo_hue_simps)

section \<open>Loading a directory\<close>

lemma new_HeadshotData_simps [simp]:
  "fst (new_HeadshotData path st) = next_ref st"
  "next_ref (snd (new_HeadshotData path st)) = Suc (next_ref st)"
  "heap (snd (new_HeadshotData path st)) =
     (heap st)(next_ref st := \<lparr>file_path = path, metadata = Map.empty, thumbnail_path = None,
                                is_selected = False, edit_settings = Map.empty\<rparr>)"
  "presets (snd (new_HeadshotData path st)) = presets st"
  "headshot_data (snd (new_HeadshotData path st)) = headshot_data st"
  "gallery_items (snd (new_HeadshotData path st)) = gallery_items st"
  "editor_current_image (snd (new_HeadshotData path st)) = editor_current_image st"
  "editor_edit_settings (snd (new_HeadshotData path st)) = editor_edit_settings st"
  "hue_current_image (snd (new_HeadshotData path st)) = hue_current_image st"
  "hue_slider (snd (new_HeadshotData path st)) = hue_slider st"
  "hue_value (snd (new_HeadshotData path st)) = hue_value st"
  "trace (snd (new_HeadshotData path st)) = trace st"
  by (simp_all add: new_HeadshotData_def)

lemma load_images_loop_frame [simp]:
  "presets (snd (load_images_loop i n ps acc st)) = presets st"
  "headshot_data (snd (load_images_loop i n ps acc st)) = headshot_data st"
  "gallery_items (snd (load_images_loop i n ps acc st)) = gallery_items st"
  "editor_current_image (snd (load_images_loop i n ps acc st)) = editor_current_image st"
  "editor_edit_settings (snd (load_images_loop i n ps acc st)) = editor_edit_settings st"
  "hue_current_image (snd (load_images_loop i n ps acc st)) = hue_current_image st"
  "hue_slider (snd (load_images_loop i n ps acc st)) = hue_slider st"
  "hue_value (snd (load_images_loop i n ps acc st)) = hue_value st"
  by (induction ps arbitrary: i acc st;
      simp add: Let_def split_beta api_get_image_metadata_def)+

lemma load_images_loop_next_ref [simp]:
  "next_ref (snd (load_images_loop i n ps acc st)) = next_ref st + length ps"
  by (induction ps arbitrary: i acc st)
     (simp_all add: Let_def split_beta api_get_image_metadata_def)

lemma load_images_loop_images:
  "fst (load_images_loop i n ps acc st) = acc @ [next_ref st ..< next_ref st + length ps]"
proof (induction ps arbitrary: i acc st)
  case Nil
  then show ?case by simp
next
  case (Cons p ps)
  have e: "[next_ref st ..< next_ref st + length (p # ps)] =
      next_ref st # [Suc (next_ref st) ..< Suc (next_ref st) + length ps]"
    by (subst upt_rec) simp
  show ?case
    unfolding e by (simp add: Let_def split_beta api_get_image_metadata_def Cons.IH)
qed

lemma load_images_loop_heap:
  "heap (snd (load_images_loop i n ps acc st)) r =
     (if next_ref st \<le> r \<and> r < next_ref st + length ps
      then loaded_record (ps ! (r - next_ref st)) False
      else heap st r)"
proof (induction ps arbitrary: i acc st)
  case Nil
  then show ?case by auto
next
  case (Cons p ps)
  show ?case
    by (auto simp add: Let_def split_beta api_get_image_metadata_def Cons.IH loaded_record_def
        nth_Cons')
qed


lemma scan_directory_simps [simp]:
  "snd (scan_directory d st) = emit (Emit_directory_scanned (fst (scan_directory d st))) st"
  "fst (scan_directory d st) =
     map (\<lambda>i. os_path_join d (''headshot_'' @ format_03d i @ ''.jpg'')) [1 ..< 25]"
  by (simp_all add: scan_directory_def Let_def)

lemma on_images_loaded_simps [simp]:
  "headshot_data (on_images_loaded images st) = images"
  "heap (on_images_loaded images st) = heap st"
  "next_ref (on_images_loaded images st) = next_ref st"
  "presets (on_images_loaded images st) = presets st"
  "gallery_items (on_images_loaded images st) = gallery_items st"
  "editor_current_image (on_images_loaded images st) = editor_current_image st"
  "editor_edit_settings (on_images_loaded images st) = editor_edit_settings st"
  "hue_current_image (on_images_loaded images st) = hue_current_image st"
  "hue_slider (on_images_loaded images st) = hue_slider st"
  "hue_value (on_images_loaded images st) = hue_value st"
  "trace (on_images_loaded images st) = trace st"
  by (simp_all add: on_images_loaded_def)

lemma load_directory_frame [simp]:
  "presets (load_directory d st) = presets st"
  "gallery_items (load_directory d st) = gallery_items st"
  "editor_current_image (load_directory d st) = editor_current_image st"
  "editor_edit_settings (load_directory d st) = editor_edit_settings st"
  "hue_current_image (load_directory d st) = hue_current_image st"
  "hue_slider (load_directory d st) = hue_slider st"
  "hue_value (load_directory d st) = hue_value st"
  by (simp_all add: load_directory_def load_images_def Let_def split_beta)

lemma load_directory_next_ref [simp]:
  "next_ref (load_directory d st) = next_ref st + 24"
  by (simp add: load_directory_def load_images_def Let_def split_beta)

lemma load_directory_collection:
  "headshot_data (load_directory d st) = [next_ref st ..< next_ref st + 24]"
  by (simp add: load_directory_def load_images_def Let_def split_beta load_images_loop_images)

lemma load_directory_heap:
  "heap (load_directory d st) r =
     (if next_ref st \<le> r \<and> r < next_ref st + 24
      then loaded_record (fst (scan_directory d st) ! (r - next_ref st)) False
      else heap st r)"
  by (simp add: load_directory_def load_images_def Let_def split_beta load_images_loop_heap)

lemma load_directory_paths:
  "map (\<lambda>r. file_path (heap (load_directory d st) r)) (headshot_data (load_directory d st)) =
   fst (scan_directory d st)"
proof (rule nth_equalityI)
  show "length (map (\<lambda>r. file_path (heap (load_directory d st) r))
          (headshot_data (load_directory d st))) = length (fst (scan_directory d st))"
    by (simp add: load_directory_collection)
next
  fix k
  assume "k < length (map (\<lambda>r. file_path (heap (load_directory d st) r))
          (headshot_data (load_directory d st)))"
  then have k: "k < 24" by (simp add: load_directory_collection)
  then show "map (\<lambda>r. file_path (heap (load_directory d st) r))
          (headshot_data (load_directory d st)) ! k = fst (scan_directory d st) ! k"
    by (simp add: load_directory_collection load_directory_heap loaded_record_def
        del: scan_directory_simps)
qed

lemma load_directory_unselected:
  "get_selected_images (load_directory d st) = []"
  by (auto simp add: get_selected_images_def filter_empty_conv load_directory_collection
      load_directory_heap loaded_record_def simp del: scan_directory_simps)

text \<open>
  \<^bold>\<open>C9.\<close> The code has no pending load and no generation tag. \<^verbatim>\<open>on_images_loaded\<close>
  installs whatever list it is handed. \<^verbatim>\<open>load_directory\<close> scans, loads and installs
  within the call: when it returns, the collection is the twenty-four new records of
  the directory it was given, in scan order, none selected. After two loads in a row
  the collection is the one of the second directory, and holds no record of the first.
\<close>

theorem load_directory_replaces_collection:
  "headshot_data (on_images_loaded images st) = images \<and>
   headshot_data (load_directory d st) = [next_ref st ..< next_ref st + 24] \<and>
   map (\<lambda>r. file_path (heap (load_directory d st) r)) (headshot_data (load_directory d st)) =
     fst (scan_directory d st) \<and>
   get_selected_images (load_directory d st) = [] \<and>
   headshot_data (load_directory d2 (load_directory d1 st)) =
     [next_ref st + 24 ..< next_ref st + 48] \<and>
   map (\<lambda>r. file_path (heap (load_directory d2 (load_directory d1 st)) r))
       (headshot_data (load_directory d2 (load_directory d1 st))) =
     fst (scan_directory d2 st) \<and>
   set (headshot_data (load_directory d2 (load_directory d1 st))) \<inter>
     set (headshot_data (load_directory d1 st)) = {}"
proof -
  have "fst (scan_directory d2 (load_directory d1 st)) = fst (scan_directory d2 st)"
    by simp
  with load_directory_paths[of d2 "load_directory d1 st"]
  have p2: "map (\<lambda>r. file_path (heap (load_directory d2 (load_directory d1 st)) r))
       (headshot_data (load_directory d2 (load_directory d1 st))) = fst (scan_directory d2 st)"
    by simp
  have c2: "headshot_data (load_directory d2 (load_directory d1 st)) =
     [next_ref st + 24 ..< next_ref st + 48]"
    by (simp add: load_directory_collection ac_simps)
  have dj: "set (headshot_data (load_directory d2 (load_directory d1 st))) \<inter>
     set (headshot_data (load_directory d1 st)) = {}"
    unfolding c2 by (auto simp add: load_directory_collection)
  from p2 c2 dj load_directory_paths[of d st] show ?thesis
    by (simp add: load_directory_collection load_directory_unselected
        del: scan_directory_simps)
qed

theorem load_directory_replaces_collection_witness:
  "headshot_data (load_directory ''/b'' (load_directory ''/a'' initial_app)) = [24 ..< 48] \<and>
   next_ref initial_app = 0 \<and>
   headshot_data (on_images_loaded [] initial_app) = [] \<and>
   file_path (heap (load_directory ''/b'' (load_directory ''/a'' initial_app)) 24) =
     ''/b/headshot_001.jpg'' \<and>
   file_path (heap (load_directory ''/b'' (load_directory ''/a'' initial_app)) 23) =
     ''/a/headshot_024.jpg''"
proof -
  have n: "next_ref initial_app = 0"
    by (simp add: initial_app_def constructed_app_def load_presets_def Let_def)
  have c: "headshot_data (load_directory ''/b'' (load_directory ''/a'' initial_app)) = [24 ..< 48]"
    using load_directory_replaces_collection[of "[]" initial_app "''/a''" "''/b''" "''/a''"] n
    by simp
  have p: "file_path (heap (load_directory ''/b'' (load_directory ''/a'' initial_app)) 24) =
     ''/b/headshot_001.jpg''"
    by (simp add: load_directory_heap n loaded_record_def os_path_join_def format_03d_def
        digit_char_def numeral_2_eq_2)
  have q: "file_path (heap (load_directory ''/b'' (load_directory ''/a'' initial_app)) 23) =
     ''/a/headshot_024.jpg''"
    by (simp add: load_directory_heap n loaded_record_def os_path_join_def format_03d_def
        digit_char_def)
  from n c p q show ?thesis by simp
qed

text \<open>
  A result handed to \<^verbatim>\<open>on_images_loaded\<close> after a newer one is installed all the same.
\<close>

theorem late_result_overwrites_counterexample:
  "headshot_data (on_images_loaded [1, 2] demo_loaded) = [1, 2] \<and>
   headshot_data (on_images_loaded [0] (on_images_loaded [1, 2] demo_loaded)) = [0]"
  by simp

section \<open>What each operation leaves unchanged\<close>

lemma select_image_frame [simp]:
  "presets (select_image m i st) = presets st"
  "headshot_data (select_image m i st) = headshot_data st"
  "next_ref (select_image m i st) = next_ref st"
  "editor_current_image (select_image m i st) = editor_current_image st"
  "editor_edit_settings (select_image m i st) = editor_edit_settings st"
  "hue_current_image (select_image m i st) = hue_current_image st"
  "hue_slider (select_image m i st) = hue_slider st"
  "hue_value (select_image m i st) = hue_value st"
  by (simp_all add: select_image_def Let_def clear_selection_frame)

lemma select_image_edit_settings [simp]:
  "edit_settings (heap (select_image m i st) r) = edit_settings (heap st r)"
  by (simp add: select_image_def Let_def clear_selection_frame clear_selection_heap)

lemma apply_preset_to_selected_frame [simp]:
  "heap (apply_preset_to_selected n st) = heap st"
  "presets (apply_preset_to_selected n st) = presets st"
  "headshot_data (apply_preset_to_selected n st) = headshot_data st"
  "editor_current_image (apply_preset_to_selected n st) = editor_current_image st"
  "editor_edit_settings (apply_preset_to_selected n st) = editor_edit_settings st"
  by (simp_all add: apply_preset_to_selected_def)

lemma editor_set_current_image_simps [simp]:
  "heap (editor_set_current_image d st) = heap st"
  "presets (editor_set_current_image d st) = presets st"
  "headshot_data (editor_set_current_image d st) = headshot_data st"
  "editor_current_image (editor_set_current_image d st) = Some d"
  "editor_edit_settings (editor_set_current_image d st) = edit_settings (heap st d)"
  "hue_current_image (editor_set_current_image d st) = hue_current_image st"
  "trace (editor_set_current_image d st) = trace st"
  by (simp_all add: editor_set_current_image_def load_image_settings_def)

lemma hue_set_current_image_simps [simp]:
  "heap (hue_set_current_image d st) = heap st"
  "presets (hue_set_current_image d st) = presets st"
  "headshot_data (hue_set_current_image d st) = headshot_data st"
  "editor_current_image (hue_set_current_image d st) = editor_current_image st"
  "editor_edit_settings (hue_set_current_image d st) = editor_edit_settings st"
  "hue_current_image (hue_set_current_image d st) = Some d"
  "trace (hue_set_current_image d st) = trace st"
  by (simp_all add: hue_set_current_image_def)

lemma on_slider_changed_simps [simp]:
  "heap (on_slider_changed name v st) = heap st"
  "presets (on_slider_changed name v st) = presets st"
  "headshot_data (on_slider_changed name v st) = headshot_data st"
  "editor_current_image (on_slider_changed name v st) = editor_current_image st"
  "editor_edit_settings (on_slider_changed name v st) = (editor_edit_settings st)(name \<mapsto> v)"
  by (simp_all add: on_slider_changed_def Let_def split: option.splits)

lemma save_image_frame [simp]:
  "heap (snd (save_image d p st)) = heap st"
  "presets (snd (save_image d p st)) = presets st"
  "headshot_data (snd (save_image d p st)) = headshot_data st"
  "editor_current_image (snd (save_image d p st)) = editor_current_image st"
  "editor_edit_settings (snd (save_image d p st)) = editor_edit_settings st"
  by (simp_all add: save_image_def api_save_edited_image_def Let_def)

lemma save_current_edits_simps [simp]:
  "heap (save_current_edits st) =
     (case editor_current_image st of
        Some d \<Rightarrow> (heap st)(d := (heap st d)\<lparr>edit_settings := editor_edit_settings st\<rparr>)
      | None \<Rightarrow> heap st)"
  "presets (save_current_edits st) = presets st"
  "headshot_data (save_current_edits st) = headshot_data st"
  "editor_current_image (save_current_edits st) = editor_current_image st"
  "editor_edit_settings (save_current_edits st) = editor_edit_settings st"
  by (simp_all add: save_current_edits_def Let_def split: option.splits)

lemma reset_editor_settings_simps [simp]:
  "heap (reset_editor_settings st) =
     (case editor_current_image st of
        Some d \<Rightarrow> (heap st)(d := (heap st d)\<lparr>edit_settings := Map.empty\<rparr>)
      | None \<Rightarrow> heap st)"
  "presets (reset_editor_settings st) = presets st"
  "headshot_data (reset_editor_settings st) = headshot_data st"
  "editor_current_image (reset_editor_settings st) = editor_current_image st"
  "editor_edit_settings (reset_editor_settings st) = Map.empty"
  by (simp_all add: reset_editor_settings_def Let_def split: option.splits)

lemma api_get_similar_images_simps [simp]:
  "presets (snd (api_get_similar_images d st)) = presets st"
  "headshot_data (snd (api_get_similar_images d st)) = headshot_data st"
  "editor_current_image (snd (api_get_similar_images d st)) = editor_current_image st"
  "editor_edit_settings (snd (api_get_similar_images d st)) = editor_edit_settings st"
  "edit_settings (heap (snd (api_get_similar_images d st)) r) =
     (if next_ref st \<le> r \<and> r < next_ref st + 3 then Map.empty else edit_settings (heap st r))"
  by (auto simp add: api_get_similar_images_def Let_def split_beta)

lemma on_tab_changed_simps [simp]:
  "heap (on_tab_changed i st) = heap st"
  "presets (on_tab_changed i st) = presets st"
  "headshot_data (on_tab_changed i st) = headshot_data st"
  by (simp_all add: on_tab_changed_def split: list.splits)

lemma load_presets_simps [simp]:
  "heap (snd (load_presets st)) = heap st"
  "presets (snd (load_presets st)) = mock_presets"
  "headshot_data (snd (load_presets st)) = headshot_data st"
  "editor_current_image (snd (load_presets st)) = editor_current_image st"
  "editor_edit_settings (snd (load_presets st)) = editor_edit_settings st"
  "next_ref (snd (load_presets st)) = next_ref st"
  by (simp_all add: load_presets_def Let_def)

lemma save_preset_simps [simp]:
  "fst (save_preset name settings st) = True"
  "heap (snd (save_preset name settings st)) = heap st"
  "presets (snd (save_preset name settings st)) = (presets st)(name \<mapsto> settings)"
  "headshot_data (snd (save_preset name settings st)) = headshot_data st"
  "editor_current_image (snd (save_preset name settings st)) = editor_current_image st"
  "editor_edit_settings (snd (save_preset name settings st)) = editor_edit_settings st"
  by (simp_all add: save_preset_def)

lemma set_current_image_for_editing_simps [simp]:
  "heap (set_current_image_for_editing d st) = heap st"
  "presets (set_current_image_for_editing d st) = presets st"
  "headshot_data (set_current_image_for_editing d st) = headshot_data st"
  "editor_current_image (set_current_image_for_editing d st) = Some d"
  "editor_edit_settings (set_current_image_for_editing d st) = edit_settings (heap st d)"
  "hue_current_image (set_current_image_for_editing d st) = Some d"
  by (simp_all add: set_current_image_for_editing_def)

lemma apply_similar_settings_simps [simp]:
  "presets (apply_similar_settings st) = presets st"
  "headshot_data (apply_similar_settings st) = headshot_data st"
  "editor_current_image (apply_similar_settings st) = editor_current_image st"
  "editor_edit_settings (apply_similar_settings st) = editor_edit_settings st"
  by (simp_all add: apply_similar_settings_def split: option.splits)

section \<open>The preset catalog\<close>

lemma step_presets:
  "presets st name = None \<Longrightarrow> \<not> writes_preset name op \<Longrightarrow>
   presets (step int_of op st) name = None"
  by (cases op) (simp_all split: if_splits)

lemma run_presets:
  "presets st name = None \<Longrightarrow> \<not> list_ex (writes_preset name) ops \<Longrightarrow>
   presets (run int_of ops st) name = None"
  by (induction ops arbitrary: st) (simp_all add: step_presets)

text \<open>
  \<^bold>\<open>C10.\<close> \<^verbatim>\<open>save_preset\<close> always returns \<^verbatim>\<open>True\<close>; afterwards the name resolves to
  exactly the settings saved, whatever was stored under it before; every other name
  resolves as before; no record changes. A name that no operation has written, by
  saving it or by loading a catalog that holds it, resolves to nothing after any run
  of operations from the state in which the services were built.
\<close>

theorem save_preset_round_trip:
  "fst (save_preset name settings st) = True \<and>
   get_preset_settings name (snd (save_preset name settings st)) = Some settings \<and>
   (\<forall>other. other \<noteq> name \<longrightarrow>
      get_preset_settings other (snd (save_preset name settings st)) =
        get_preset_settings other st) \<and>
   heap (snd (save_preset name settings st)) = heap st \<and>
   (\<not> list_ex (writes_preset name) ops \<longrightarrow>
      get_preset_settings name (run int_of ops constructed_app) = None)"
proof -
  have "presets constructed_app name = None" by (simp add: constructed_app_def)
  then have "\<not> list_ex (writes_preset name) ops \<longrightarrow>
      get_preset_settings name (run int_of ops constructed_app) = None"
    by (simp add: get_preset_settings_def run_presets)
  then show ?thesis by (simp add: get_preset_settings_def)
qed

theorem save_preset_round_trip_witness:
  "fst (save_preset ''Warm'' [''warmth'' \<mapsto> 12] initial_app) = True \<and>
   get_preset_settings ''Warm'' (snd (save_preset ''Warm'' [''warmth'' \<mapsto> 12] initial_app)) =
     Some [''warmth'' \<mapsto> 12] \<and>
   get_preset_settings ''Studio Light''
       (snd (save_preset ''Studio Light'' [''warmth'' \<mapsto> 12] initial_app)) =
     Some [''warmth'' \<mapsto> 12] \<and>
   get_preset_settings ''Nonexistent''
       (run Map.empty [Load_presets, Save_preset ''Warm'' [''warmth'' \<mapsto> 12],
                       Select_image {} 0] constructed_app) = None"
  using save_preset_round_trip[of "''Warm''" "[''warmth'' \<mapsto> 12]" initial_app
      "[]" Map.empty]
    save_preset_round_trip[of "''Studio Light''" "[''warmth'' \<mapsto> 12]" initial_app
      "[]" Map.empty]
    save_preset_round_trip[of "''Nonexistent''" "[''warmth'' \<mapsto> 12]" initial_app
      "[Load_presets, Save_preset ''Warm'' [''warmth'' \<mapsto> 12], Select_image {} 0]" Map.empty]
  by (simp add: mock_presets_def get_preset_settings_def)

section \<open>Valid edit settings are kept\<close>

lemma valid_settings_empty [simp]: "valid_settings ranges Map.empty"
  by (simp add: valid_settings_def)

lemma valid_settings_update:
  "valid_settings ranges m \<Longrightarrow> in_range ranges name v \<Longrightarrow> valid_settings ranges (m(name \<mapsto> v))"
  by (simp add: valid_settings_def)

lemma load_directory_edit_settings:
  "edit_settings (heap (load_directory d st) r) =
     (if next_ref st \<le> r \<and> r < next_ref st + 24 then Map.empty else edit_settings (heap st r))"
  by (simp add: load_directory_heap loaded_record_def del: scan_directory_simps)

lemma invariant_load_directory:
  "settings_invariant ranges st \<Longrightarrow> settings_invariant ranges (load_directory d st)"
  by (simp add: settings_invariant_def load_directory_edit_settings)

lemma invariant_on_tab_changed:
  "settings_invariant ranges st \<Longrightarrow> settings_invariant ranges (on_tab_changed i st)"
  by (simp add: settings_invariant_def on_tab_changed_def split: list.splits)

lemma invariant_save_current_edits:
  "settings_invariant ranges st \<Longrightarrow> settings_invariant ranges (save_current_edits st)"
  by (simp add: settings_invariant_def split: option.splits)

lemma invariant_reset_editor_settings:
  "settings_invariant ranges st \<Longrightarrow> settings_invariant ranges (reset_editor_settings st)"
  by (simp add: settings_invariant_def split: option.splits)

lemma invariant_apply_similar_settings:
  "settings_invariant ranges st \<Longrightarrow> settings_invariant ranges (apply_similar_settings st)"
  by (simp add: settings_invariant_def apply_similar_settings_def split: option.splits)

lemma invariant_on_slider_changed:
  "settings_invariant ranges st \<Longrightarrow> in_range ranges name v \<Longrightarrow>
   settings_invariant ranges (on_slider_changed name v st)"
  by (simp add: settings_invariant_def valid_settings_update)

lemma invariant_step:
  "settings_invariant ranges st \<Longrightarrow> accepted ranges op \<Longrightarrow>
   settings_invariant ranges (step int_of op st)"
proof (cases op)
  case (Load_directory d)
  then show "settings_invariant ranges st \<Longrightarrow> ?thesis" by (simp add: invariant_load_directory)
next
  case (On_tab_changed i)
  then show "settings_invariant ranges st \<Longrightarrow> ?thesis" by (simp add: invariant_on_tab_changed)
next
  case (On_slider_changed name v)
  then show "settings_invariant ranges st \<Longrightarrow> accepted ranges op \<Longrightarrow> ?thesis"
    by (simp add: invariant_on_slider_changed)
next
  case Save_current_edits
  then show "settings_invariant ranges st \<Longrightarrow> ?thesis" by (simp add: invariant_save_current_edits)
next
  case Reset_editor_settings
  then show "settings_invariant ranges st \<Longrightarrow> ?thesis"
    by (simp add: invariant_reset_editor_settings)
next
  case Apply_similar_settings
  then show "settings_invariant ranges st \<Longrightarrow> ?thesis"
    by (simp add: invariant_apply_similar_settings)
qed (simp_all add: settings_invariant_def)

lemma invariant_run:
  "settings_invariant ranges st \<Longrightarrow> list_all (accepted ranges) ops \<Longrightarrow>
   settings_invariant ranges (run int_of ops st)"
  by (induction ops arbitrary: st) (simp_all add: invariant_step)

lemma invariant_initial: "settings_invariant ranges initial_app"
  by (simp add: settings_invariant_def initial_app_def constructed_app_def blank_HeadshotData_def)

lemma invariant_records_valid:
  "settings_invariant ranges st \<Longrightarrow> records_valid ranges st"
  by (simp add: settings_invariant_def records_valid_def)


subsection \<open>A run that edits the first record\<close>

text \<open>
  Load a directory, click the first gallery item, change to the editor tab, move one
  slider, save: the record at index 0 of the collection then holds the slider's value.
\<close>

lemma select_single_selected:
  assumes "modifiers \<noteq> {ControlModifier}" "0 \<le> index"
    "index < int (length (headshot_data st))" "index < int (length (gallery_items st))"
    "distinct (headshot_data st)"
  shows "get_selected_images (select_image modifiers index st) = [headshot_data st ! nat index]"
proof -
  have "get_selected_images (select_image modifiers index st) =
      [d \<leftarrow> headshot_data st. d = headshot_data st ! nat index]"
    unfolding get_selected_images_def select_image_frame
    by (rule filter_cong) (simp_all add: select_single_heap[OF assms(1-4)])
  with filter_nth_distinct[OF assms(5), of "nat index"] assms show ?thesis by simp
qed

lemma edited_run:
  "run int_of [Load_directory ''/photos'', Select_image {} 0, On_tab_changed 1,
               On_slider_changed ''Brightness'' v, Save_current_edits] initial_app =
     save_current_edits (on_slider_changed ''Brightness'' v (on_tab_changed 1
       (select_image {} 0 (load_directory ''/photos'' initial_app))))"
  by simp

lemma edited_state:
  defines "L \<equiv> load_directory ''/photos'' initial_app"
  defines "T \<equiv> on_tab_changed 1 (select_image {} 0 L)"
  shows "headshot_data (save_current_edits (on_slider_changed ''Brightness'' v T)) = [0 ..< 24]"
    and "edit_settings (heap (save_current_edits (on_slider_changed ''Brightness'' v T)) 0) =
           [''Brightness'' \<mapsto> v]"
proof -
  have n: "next_ref initial_app = 0"
    by (simp add: initial_app_def constructed_app_def)
  have g: "length (gallery_items L) = 12"
    by (simp add: L_def initial_app_def constructed_app_def load_presets_def Let_def)
  have c: "headshot_data L = [0 ..< 24]"
    by (simp add: L_def load_directory_collection n)
  have "get_selected_images (select_image {} 0 L) = [headshot_data L ! nat 0]"
    by (rule select_single_selected) (simp_all add: c g)
  then have s: "get_selected_images (select_image {} 0 L) = [0]"
    by (simp add: c)
  have t: "T = editor_set_current_image 0 (select_image {} 0 L)"
    by (simp add: T_def on_tab_changed_def s)
  show "headshot_data (save_current_edits (on_slider_changed ''Brightness'' v T)) = [0 ..< 24]"
    by (simp add: t c)
  show "edit_settings (heap (save_current_edits (on_slider_changed ''Brightness'' v T)) 0) =
           [''Brightness'' \<mapsto> v]"
    by (simp add: t L_def load_directory_edit_settings n)
qed

text \<open>
  \<^bold>\<open>C8.\<close> For every table of ranges: an operation that is not a slider change, or
  that is a slider change with a recognized name and a value in its range, keeps every
  record's edit settings (and the editor's) valid for the table; so in every state
  reached from the initial one by such operations, every record of the collection has
  keys among the recognized names only, each with a value in its range.
\<close>

theorem accepted_operations_keep_settings_valid:
  "(settings_invariant ranges st \<and> accepted ranges op \<longrightarrow>
      settings_invariant ranges (step int_of op st)) \<and>
   (settings_invariant ranges st \<longrightarrow> records_valid ranges st) \<and>
   (list_all (accepted ranges) ops \<longrightarrow>
      settings_invariant ranges (run int_of ops initial_app) \<and>
      records_valid ranges (run int_of ops initial_app))"
  using invariant_step[of ranges st op int_of] invariant_records_valid[of ranges]
    invariant_run[OF invariant_initial, of ranges ops int_of]
  by blast

theorem accepted_operations_keep_settings_valid_witness:
  "list_all (accepted slider_ranges)
     [Load_directory ''/photos'', Select_image {} 0, On_tab_changed 1,
      On_slider_changed ''Brightness'' 40, Save_current_edits] \<and>
   records_valid slider_ranges
     (run Map.empty [Load_directory ''/photos'', Select_image {} 0, On_tab_changed 1,
                     On_slider_changed ''Brightness'' 40, Save_current_edits] initial_app) \<and>
   edit_settings (heap
     (run Map.empty [Load_directory ''/photos'', Select_image {} 0, On_tab_changed 1,
                     On_slider_changed ''Brightness'' 40, Save_current_edits] initial_app) 0) =
     [''Brightness'' \<mapsto> 40]"
proof -
  have a: "list_all (accepted slider_ranges)
     [Load_directory ''/photos'', Select_image {} 0, On_tab_changed 1,
      On_slider_changed ''Brightness'' 40, Save_current_edits]"
    by (simp add: in_range_def slider_ranges_def slider_parameters_def)
  with accepted_operations_keep_settings_valid[of slider_ranges initial_app
      "Save_current_edits" Map.empty
      "[Load_directory ''/photos'', Select_image {} 0, On_tab_changed 1,
        On_slider_changed ''Brightness'' 40, Save_current_edits]"]
  have b: "records_valid slider_ranges
     (run Map.empty [Load_directory ''/photos'', Select_image {} 0, On_tab_changed 1,
                     On_slider_changed ''Brightness'' 40, Save_current_edits] initial_app)"
    by blast
  from a b edited_state(2)[of 40] show ?thesis
    unfolding edited_run by simp
qed

text \<open>
  \<^verbatim>\<open>on_slider_changed\<close> itself checks neither the name nor the value: a value of 500
  for a slider declared from -100 to 100 reaches the record when the edits are saved.
\<close>

theorem unchecked_slider_value_counterexample:
  "records_valid slider_ranges initial_app \<and>
   slider_ranges ''Brightness'' = Some (- 100, 100) \<and>
   edit_settings (heap
     (run Map.empty [Load_directory ''/photos'', Select_image {} 0, On_tab_changed 1,
                     On_slider_changed ''Brightness'' 500, Save_current_edits] initial_app) 0)
     ''Brightness'' = Some 500 \<and>
   \<not> records_valid slider_ranges
     (run Map.empty [Load_directory ''/photos'', Select_image {} 0, On_tab_changed 1,
                     On_slider_changed ''Brightness'' 500, Save_current_edits] initial_app)"
proof -
  let ?V = "run Map.empty [Load_directory ''/photos'', Select_image {} 0, On_tab_changed 1,
                     On_slider_changed ''Brightness'' 500, Save_current_edits] initial_app"
  have r: "slider_ranges ''Brightness'' = Some (- 100, 100)"
    by (simp add: slider_ranges_def slider_parameters_def)
  have e: "edit_settings (heap ?V 0) = [''Brightness'' \<mapsto> 500]"
    unfolding edited_run by (rule edited_state(2))
  have h: "headshot_data ?V = [0 ..< 24]"
    unfolding edited_run by (rule edited_state(1))
  have "\<not> valid_settings slider_ranges (edit_settings (heap ?V 0))"
    unfolding e by (simp add: valid_settings_def in_range_def r)
  moreover have "0 \<in> set (headshot_data ?V)" unfolding h by simp
  ultimately have n: "\<not> records_valid slider_ranges ?V"
    unfolding records_valid_def by blast
  have i: "records_valid slider_ranges initial_app"
    by (simp add: records_valid_def initial_app_def constructed_app_def)
  from i r e n show ?thesis by simp
qed

section \<open>Indices beyond the gallery items\<close>

text \<open>
  A directory load installs twenty-four records, and the window has twelve gallery
  items. An index from 12 on is within the collection and is refused by the bounds
  check of \<^verbatim>\<open>select_image\<close> all the same: the warning is logged and nothing is
  selected, with or without the Control modifier.
\<close>

lemma initial_gallery_items:
  "length (gallery_items initial_app) = 12"
  by (simp add: initial_app_def constructed_app_def load_presets_def Let_def)

lemma loaded_initial:
  "headshot_data (load_directory ''/photos'' initial_app) = [0 ..< 24]"
  "length (gallery_items (load_directory ''/photos'' initial_app)) = 12"
  by (simp_all add: load_directory_collection initial_gallery_items)
     (simp add: initial_app_def constructed_app_def)

theorem select_single_beyond_gallery_counterexample:
  "headshot_data (load_directory ''/photos'' initial_app) = [0 ..< 24] \<and>
   length (gallery_items (load_directory ''/photos'' initial_app)) = 12 \<and>
   select_image {} 12 (load_directory ''/photos'' initial_app) =
     emit (Log_warning_index_out_of_bounds 12) (load_directory ''/photos'' initial_app) \<and>
   get_selected_images (select_image {} 12 (load_directory ''/photos'' initial_app)) = []"
proof -
  have s: "select_image {} 12 (load_directory ''/photos'' initial_app) =
     emit (Log_warning_index_out_of_bounds 12) (load_directory ''/photos'' initial_app)"
    by (simp add: select_image_def initial_gallery_items)
  have "get_selected_images (emit (Log_warning_index_out_of_bounds 12)
          (load_directory ''/photos'' initial_app)) = []"
    using load_directory_unselected[of "''/photos''" initial_app]
    by (simp add: get_selected_images_def)
  with s loaded_initial show ?thesis by simp
qed

theorem select_multi_beyond_gallery_counterexample:
  "headshot_data (load_directory ''/photos'' initial_app) = [0 ..< 24] \<and>
   length (gallery_items (load_directory ''/photos'' initial_app)) = 12 \<and>
   get_selected_images (load_directory ''/photos'' initial_app) = [] \<and>
   get_selected_images
     (select_image {ControlModifier} 13
        (select_image {ControlModifier} 12 (load_directory ''/photos'' initial_app))) = []"
proof -
  let ?L = "load_directory ''/photos'' initial_app"
  have s: "select_image {ControlModifier} 12 ?L = emit (Log_warning_index_out_of_bounds 12) ?L"
    by (simp add: select_image_def initial_gallery_items)
  have t: "select_image {ControlModifier} 13 (emit (Log_warning_index_out_of_bounds 12) ?L) =
      emit (Log_warning_index_out_of_bounds 13) (emit (Log_warning_index_out_of_bounds 12) ?L)"
    by (simp add: select_image_def initial_gallery_items)
  have u: "get_selected_images ?L = []"
    by (rule load_directory_unselected)
  then have "get_selected_images
      (emit (Log_warning_index_out_of_bounds 13) (emit (Log_warning_index_out_of_bounds 12) ?L)) = []"
    by (simp add: get_selected_images_def)
  with s t u loaded_initial show ?thesis by simp
qed

end
